theory Spec2Isabelle
  imports Complex_Main
begin

section \<open>The game engine of the attacker/defender network simulation\<close>

text \<open>
  This theory embeds \<^verbatim>\<open>src/GameEngine.py\<close> (class \<^verbatim>\<open>GameEngine\<close>). The program is
  Python 3 on top of \<^verbatim>\<open>networkx.DiGraph\<close>; every method that mutates \<^verbatim>\<open>self\<close> becomes a
  function from the state to the new state, and every exception the method can raise
  becomes an \<open>Inl\<close> result.
\<close>

subsection \<open>Errors, labels, messages\<close>

datatype error = NetworkXError | ValueError | IndexError | KeyError

text \<open>
  Modelled from the spec: the four suspicion labels of the class \<^verbatim>\<open>Defender\<close>
  (\<^verbatim>\<open>NO_SUSPICION_LABEL\<close>, \<^verbatim>\<open>LOW_SUSPICION_LABEL\<close>, \<^verbatim>\<open>MEDIUM_SUSPICION_LABEL\<close>,
  \<^verbatim>\<open>HIGH_SUSPICION_LABEL\<close>), which \<^verbatim>\<open>GameEngine.COLOR_MAP\<close> uses as four keys.
\<close>

datatype label = NO_SUSPICION | LOW_SUSPICION | MEDIUM_SUSPICION | HIGH_SUSPICION

type_synonym node = string

text \<open>
  Modelled from the spec: the class \<^verbatim>\<open>Message\<close>, of which the engine reads the fields
  \<^verbatim>\<open>origin\<close> and \<^verbatim>\<open>destination\<close> and the method \<^verbatim>\<open>isMalicious()\<close>; the rest of the dataset
  row is an opaque payload.
\<close>

record message =
  origin :: node
  destination :: node
  malicious :: bool
  payload :: "string list"

subsection \<open>The directed graph\<close>

text \<open>
  A \<^verbatim>\<open>networkx.DiGraph\<close> keeps its nodes and, per node, its successors in insertion
  order. The model keeps the nodes and the edges as two lists in insertion order.
\<close>

record digraph =
  nodes :: "node list"
  edges :: "(node \<times> node) list"

definition has_node :: "digraph \<Rightarrow> node \<Rightarrow> bool" where
  "has_node g n = (n \<in> set (nodes g))"

definition has_edge :: "digraph \<Rightarrow> node \<Rightarrow> node \<Rightarrow> bool" where
  "has_edge g u v = ((u, v) \<in> set (edges g))"

definition add_node :: "digraph \<Rightarrow> node \<Rightarrow> digraph" where
  "add_node g n = (if n \<in> set (nodes g) then g else g\<lparr>nodes := nodes g @ [n]\<rparr>)"

definition add_edge :: "digraph \<Rightarrow> node \<Rightarrow> node \<Rightarrow> digraph" where
  "add_edge g u v =
     (let g' = add_node (add_node g u) v
      in if (u, v) \<in> set (edges g') then g' else g'\<lparr>edges := edges g' @ [(u, v)]\<rparr>)"

definition successors :: "digraph \<Rightarrow> node \<Rightarrow> node list" where
  "successors g n = map snd (filter (\<lambda>e. fst e = n) (edges g))"

text \<open>\<^verbatim>\<open>graph.neighbors(n)\<close> raises \<^verbatim>\<open>NetworkXError\<close> for a node that is not in the graph.\<close>

definition neighbors :: "digraph \<Rightarrow> node \<Rightarrow> error + node list" where
  "neighbors g n = (if n \<in> set (nodes g) then Inr (successors g n) else Inl NetworkXError)"

text \<open>
  \<^verbatim>\<open>graph.out_edges(nbunch)\<close> goes through \<^verbatim>\<open>nbunch_iter\<close>: an argument that is a node
  stands for itself; any other argument is read as a container of nodes, of which
  those in the graph are kept (once each). A Python string that is not a node is the
  container of its one-character strings.
\<close>

definition nbunch_iter :: "digraph \<Rightarrow> node \<Rightarrow> node list" where
  "nbunch_iter g nbunch =
     (if nbunch \<in> set (nodes g) then [nbunch]
      else rev (remdups (rev (filter (\<lambda>n. n \<in> set (nodes g)) (map (\<lambda>c. [c]) nbunch)))))"

definition out_edges :: "digraph \<Rightarrow> node \<Rightarrow> (node \<times> node) list" where
  "out_edges g nbunch = concat (map (\<lambda>n. map (Pair n) (successors g n)) (nbunch_iter g nbunch))"

text \<open>\<^verbatim>\<open>remove_edges_from\<close> skips silently an edge that is not in the graph.\<close>

definition remove_edges_from :: "digraph \<Rightarrow> (node \<times> node) list \<Rightarrow> digraph" where
  "remove_edges_from g ebunch = g\<lparr>edges := filter (\<lambda>e. e \<notin> set ebunch) (edges g)\<rparr>"

text \<open>\<^verbatim>\<open>remove_edge(u, v)\<close> raises \<^verbatim>\<open>NetworkXError\<close> when there is no edge from u to v.\<close>

definition remove_edge :: "digraph \<Rightarrow> node \<Rightarrow> node \<Rightarrow> error + digraph" where
  "remove_edge g u v =
     (if (u, v) \<in> set (edges g) then Inr (g\<lparr>edges := removeAll (u, v) (edges g)\<rparr>)
      else Inl NetworkXError)"

subsection \<open>The state of a game\<close>

text \<open>
  One entry of \<^verbatim>\<open>trafficInfo\<close>: the tuple holds queue lengths and infection scores
  (integers) and reachability flags (booleans).
\<close>

datatype feature = Count int | Flag bool

text \<open>
  The fields of \<^verbatim>\<open>self\<close> that a round reads or writes. The two collaborators are
  outside the source; the state records the calls of their \<^verbatim>\<open>addTrainingPoint\<close>, in
  order, with the arguments of each call. A reward is a Python number or \<^verbatim>\<open>None\<close>.
  \<open>draws\<close> counts the calls of \<^verbatim>\<open>random.random()\<close> made so far. The fields \<^verbatim>\<open>traffic\<close>
  and \<^verbatim>\<open>attackMessage\<close>, which only the display reads, are left out.
\<close>

record game =
  graph :: digraph
  colorMap :: "(node \<times> string) list"
  infectedNodes :: "node list"
  quarantinedNodes :: "node list"
  reachableNodes :: "int list"
  roundNumber :: nat
  lastAttackerScore :: "rat option"
  attackerPoints :: "(feature list \<times> int \<times> rat option) list"
  defenderPoints :: "(message \<times> label \<times> rat) list"
  draws :: nat

fun COLOR_MAP :: "label \<Rightarrow> string" where
  "COLOR_MAP NO_SUSPICION = ''blue''"
| "COLOR_MAP LOW_SUSPICION = ''yellow''"
| "COLOR_MAP MEDIUM_SUSPICION = ''orange''"
| "COLOR_MAP HIGH_SUSPICION = ''red''"

text \<open>Assignment to a key of a Python dictionary.\<close>

fun dict_set :: "('k \<times> 'v) list \<Rightarrow> 'k \<Rightarrow> 'v \<Rightarrow> ('k \<times> 'v) list" where
  "dict_set [] k v = [(k, v)]"
| "dict_set ((k', v') # kvs) k v = (if k' = k then (k, v) # kvs else (k', v') # dict_set kvs k v)"

subsection \<open>Infection and quarantine\<close>

definition infectNode :: "game \<Rightarrow> node \<Rightarrow> game" where
  "infectNode s destination' =
     (if destination' \<notin> set (infectedNodes s)
      then s\<lparr>infectedNodes := infectedNodes s @ [destination']\<rparr>
      else s)"

definition quarantineNode :: "game \<Rightarrow> node \<Rightarrow> node \<Rightarrow> label \<Rightarrow> error + game" where
  "quarantineNode s origin' destination' lbl =
     (if lbl = HIGH_SUSPICION then
        (let s1 = (if origin' \<notin> set (quarantinedNodes s)
                   then s\<lparr>quarantinedNodes := quarantinedNodes s @ [origin']\<rparr> else s);
             out = out_edges (graph s1) origin'
         in Inr (s1\<lparr>graph := remove_edges_from (graph s1) out\<rparr>))
      else
        (case remove_edge (graph s) origin' destination' of
           Inl e \<Rightarrow> Inl e
         | Inr g' \<Rightarrow> Inr (s\<lparr>graph := g'\<rparr>)))"

subsection \<open>Reachability and infection reward\<close>

text \<open>The loop of \<^verbatim>\<open>isReachable\<close> over \<^verbatim>\<open>self.infectedNodes\<close>.\<close>

fun reachableFrom :: "digraph \<Rightarrow> node \<Rightarrow> node list \<Rightarrow> error + bool" where
  "reachableFrom g n [] = Inr False"
| "reachableFrom g n (infectedNode # rest) =
     (case neighbors g infectedNode of
        Inl e \<Rightarrow> Inl e
      | Inr nbrs \<Rightarrow> if n \<in> set nbrs then Inr True else reachableFrom g n rest)"

definition isReachable :: "game \<Rightarrow> node \<Rightarrow> error + bool" where
  "isReachable s n =
     (if n \<in> set (infectedNodes s) then Inr False
      else reachableFrom (graph s) n (infectedNodes s))"

definition calculateNodeInfectionReward :: "game \<Rightarrow> node \<Rightarrow> error + int" where
  "calculateNodeInfectionReward s n =
     (if n \<in> set (infectedNodes s) then Inr 0
      else case neighbors (graph s) n of
             Inl e \<Rightarrow> Inl e
           | Inr nbrs \<Rightarrow>
               Inr (1 + int (length (filter (\<lambda>neighbor. neighbor \<notin> set (infectedNodes s)) nbrs))))"

subsection \<open>Scores\<close>

text \<open>
  \<^verbatim>\<open>calculateScore\<close> returns a two-element list; the attacker's entry is \<^verbatim>\<open>None\<close> for a
  message that is not malicious. \<^verbatim>\<open>/\<close> is Python 3's true division, so the halved
  rewards are fractions.
\<close>

definition calculateScore :: "game \<Rightarrow> message \<Rightarrow> label \<Rightarrow> error + (rat option \<times> rat)" where
  "calculateScore s m lbl =
     (case calculateNodeInfectionReward s (destination m) of
        Inl e \<Rightarrow> Inl e
      | Inr attackerReward \<Rightarrow>
          (case neighbors (graph s) (destination m) of
             Inl e \<Rightarrow> Inl e
           | Inr nbrs \<Rightarrow>
               (let defenderReward = int (length nbrs) + 1 in
                if malicious m \<and> lbl = HIGH_SUSPICION then
                  Inr (Some (- of_int attackerReward), of_int defenderReward)
                else if malicious m \<and> lbl = MEDIUM_SUSPICION then
                  Inr (Some (- of_int attackerReward / 2), of_int defenderReward)
                else if malicious m then
                  Inr (Some (of_int attackerReward), - of_int defenderReward)
                else if \<not> malicious m \<and> lbl = HIGH_SUSPICION then
                  Inr (None, - of_int defenderReward)
                else if \<not> malicious m \<and> lbl = MEDIUM_SUSPICION then
                  Inr (None, - of_int defenderReward / 2)
                else
                  Inr (None, of_int defenderReward))))"

subsection \<open>The network update of one message\<close>

text \<open>The comprehension \<^verbatim>\<open>[int(self.isReachable(node)) for node in self.graph.nodes()]\<close>.\<close>

fun reachableList :: "game \<Rightarrow> node list \<Rightarrow> error + int list" where
  "reachableList s [] = Inr []"
| "reachableList s (n # ns) =
     (case isReachable s n of
        Inl e \<Rightarrow> Inl e
      | Inr b \<Rightarrow>
          (case reachableList s ns of
             Inl e \<Rightarrow> Inl e
           | Inr bs \<Rightarrow> Inr ((if b then 1 else 0) # bs)))"

definition updateNetwork :: "game \<Rightarrow> message \<Rightarrow> label \<Rightarrow> error + game" where
  "updateNetwork s m lbl =
     (let s1 = s\<lparr>colorMap := dict_set (colorMap s) (origin m) (COLOR_MAP lbl)\<rparr> in
      case (if lbl = HIGH_SUSPICION \<or> lbl = MEDIUM_SUSPICION
            then quarantineNode s1 (origin m) (destination m) lbl
            else if malicious m then Inr (infectNode s1 (destination m))
            else Inr s1) of
        Inl e \<Rightarrow> Inl e
      | Inr s2 \<Rightarrow>
          (case reachableList s2 (nodes (graph s2)) of
             Inl e \<Rightarrow> Inl e
           | Inr r \<Rightarrow> Inr (s2\<lparr>reachableNodes := r\<rparr>)))"

definition gameOver :: "game \<Rightarrow> bool" where
  "gameOver s = (\<not> (\<exists>x \<in> set (reachableNodes s). x \<noteq> 0))"

subsection \<open>What a round takes from outside the engine\<close>

text \<open>
  The constants of \<^verbatim>\<open>Message\<close> and \<^verbatim>\<open>Attacker\<close>, the answers of the two collaborators, the
  dataset, and the results of the calls to the module \<^verbatim>\<open>random\<close> during one round.
  \<open>inspect k m\<close> is the label \<^verbatim>\<open>defender.inspect(m)\<close> returns after \<open>k\<close> earlier draws of
  \<^verbatim>\<open>random.random()\<close>.

  \<open>inspectionSkipped k n\<close> is the outcome of the test
  \<^verbatim>\<open>random.random() > self.calculateInspectionChance(n)\<close> at draw number \<open>k\<close>. The test
  compares two IEEE doubles: \<^verbatim>\<open>calculateInspectionChance(n)\<close> evaluates
  \<^verbatim>\<open>2.195 - (1 / (1 + math.exp(-.75 * n))) - (1 / (1 + math.exp(-.05 * n)))\<close> with the
  rounding of double arithmetic and the \<^verbatim>\<open>exp\<close> of the C library. The model does not
  compute doubles; it takes the outcome of the test from outside, so what is proved of
  every world holds whatever the two doubles are.

  One element of \<open>trafficDraws\<close> holds, for one background message, the row index
  drawn by \<^verbatim>\<open>random.randint\<close> and the two positions picked by \<^verbatim>\<open>random.choice\<close>;
  \<open>position\<close> is the result of the \<^verbatim>\<open>randint\<close> that places the attack message.
\<close>

record world =
  ORIGIN_INDEX :: nat
  DESTINATION_INDEX :: nat
  isMaliciousRow :: "string list \<Rightarrow> bool"
  OUTPUT_SIZE :: int
  getAttack :: "int list \<Rightarrow> bool list \<Rightarrow> int list \<Rightarrow> node list \<Rightarrow> digraph \<Rightarrow> message option \<times> int"
  inspect :: "nat \<Rightarrow> message \<Rightarrow> label"
  dataset :: "string list list"
  inspectionSkipped :: "nat \<Rightarrow> nat \<Rightarrow> bool"
  trafficDraws :: "(int \<times> nat \<times> nat) list"
  position :: int

subsection \<open>The module random\<close>

text \<open>
  \<^verbatim>\<open>random.randint(a, b)\<close> returns each integer from a to b, both included, with the same
  probability, and raises \<^verbatim>\<open>ValueError\<close> when there is none. \<open>randint a b\<close> lists the
  equally likely results.
\<close>

definition randint :: "int \<Rightarrow> int \<Rightarrow> int list" where
  "randint a b = [a..b]"

text \<open>
  \<^verbatim>\<open>random.choice(seq)\<close> returns the element at a position drawn below the length of
  \<^verbatim>\<open>seq\<close> and raises \<^verbatim>\<open>IndexError\<close> on an empty sequence; \<open>i\<close> is the position drawn.
\<close>

definition choice :: "'a list \<Rightarrow> nat \<Rightarrow> error + 'a" where
  "choice seq i = (if i < length seq then Inr (seq ! i) else Inl IndexError)"

subsection \<open>Python lists\<close>

definition list_insert :: "'a list \<Rightarrow> int \<Rightarrow> 'a \<Rightarrow> 'a list" where
  "list_insert xs i x =
     (let n = int (length xs);
          j = (if i < 0 then max 0 (n + i) else min i n)
      in take (nat j) xs @ [x] @ drop (nat j) xs)"

definition list_set :: "'a list \<Rightarrow> nat \<Rightarrow> 'a \<Rightarrow> error + 'a list" where
  "list_set xs i v = (if i < length xs then Inr (xs[i := v]) else Inl IndexError)"

text \<open>\<^verbatim>\<open>dataset.iloc[index]\<close>: a negative index counts from the end.\<close>

definition iloc :: "'a list \<Rightarrow> int \<Rightarrow> error + 'a" where
  "iloc rows index =
     (if 0 \<le> index \<and> index < int (length rows) then Inr (rows ! nat index)
      else if index < 0 \<and> - int (length rows) \<le> index
      then Inr (rows ! nat (int (length rows) + index))
      else Inl IndexError)"

subsection \<open>Background traffic\<close>

definition MAX_BACKGROUND_TRAFFIC_MESSAGES :: int where
  "MAX_BACKGROUND_TRAFFIC_MESSAGES = 30"

text \<open>
  Modelled from the spec: the constructor \<^verbatim>\<open>Message(row)\<close>. The engine calls it on a row
  whose two positions it has just assigned, so both are within the row.
\<close>

definition Message :: "world \<Rightarrow> string list \<Rightarrow> message" where
  "Message w row =
     \<lparr>origin = row ! ORIGIN_INDEX w, destination = row ! DESTINATION_INDEX w,
      malicious = isMaliciousRow w row, payload = row\<rparr>"

text \<open>The results \<^verbatim>\<open>random.randint(1, GameEngine.MAX_BACKGROUND_TRAFFIC_MESSAGES)\<close> can have.\<close>

definition numMessages_results :: "int list" where
  "numMessages_results = randint 1 MAX_BACKGROUND_TRAFFIC_MESSAGES"

text \<open>The results \<^verbatim>\<open>random.randint(1, datasetLength - 1)\<close> can have.\<close>

definition rowIndex_results :: "'a list \<Rightarrow> int list" where
  "rowIndex_results ds = randint 1 (int (length ds) - 1)"

text \<open>The comprehension \<^verbatim>\<open>rows\<close>, from the row indices drawn.\<close>

fun rowsOf :: "'a list \<Rightarrow> int list \<Rightarrow> error + 'a list" where
  "rowsOf ds [] = Inr []"
| "rowsOf ds (i # is) =
     (case iloc ds i of
        Inl e \<Rightarrow> Inl e
      | Inr r \<Rightarrow> (case rowsOf ds is of Inl e \<Rightarrow> Inl e | Inr rs \<Rightarrow> Inr (r # rs)))"

text \<open>
  The loop over \<^verbatim>\<open>rows\<close>. Each row comes with the two positions \<^verbatim>\<open>random.choice\<close> draws
  for it. The \<^verbatim>\<open>try\<close> covers the choice of the destination and its assignment; any
  exception there skips the row.
\<close>

fun trafficLoop :: "world \<Rightarrow> digraph \<Rightarrow> (string list \<times> nat \<times> nat) list \<Rightarrow> error + message list" where
  "trafficLoop w g [] = Inr []"
| "trafficLoop w g ((row, oPick, dPick) # rest) =
     (case choice (nodes g) oPick of
        Inl e \<Rightarrow> Inl e
      | Inr newOrigin \<Rightarrow>
          (case list_set row (ORIGIN_INDEX w) newOrigin of
             Inl e \<Rightarrow> Inl e
           | Inr row1 \<Rightarrow>
               (case (case choice (filter (\<lambda>node. has_edge g newOrigin node) (nodes g)) dPick of
                        Inl e \<Rightarrow> Inl e
                      | Inr d \<Rightarrow> list_set row1 (DESTINATION_INDEX w) d) of
                  Inl e \<Rightarrow> trafficLoop w g rest
                | Inr row2 \<Rightarrow>
                    (case trafficLoop w g rest of
                       Inl e \<Rightarrow> Inl e
                     | Inr messages \<Rightarrow> Inr (Message w row2 # messages)))))"

text \<open>
  \<^verbatim>\<open>generateBackgroundTraffic\<close>; the number of messages drawn, which is at least one, is
  the length of \<open>trafficDraws\<close>. The \<^verbatim>\<open>randint\<close> of the row indices raises when it has no
  result.
\<close>

definition generateBackgroundTraffic :: "world \<Rightarrow> game \<Rightarrow> error + message list" where
  "generateBackgroundTraffic w s =
     (if rowIndex_results (dataset w) = [] then Inl ValueError
      else case rowsOf (dataset w) (map fst (trafficDraws w)) of
             Inl e \<Rightarrow> Inl e
           | Inr rows \<Rightarrow> trafficLoop w (graph s) (zip rows (map snd (trafficDraws w))))"

subsection \<open>The queues of a round\<close>

definition dict_get :: "('k \<times> 'v) list \<Rightarrow> 'k \<Rightarrow> error + 'v" where
  "dict_get d k = (case map_of d k of None \<Rightarrow> Inl KeyError | Some v \<Rightarrow> Inr v)"

text \<open>The comprehension \<^verbatim>\<open>nodeInformation\<close>.\<close>

fun nodeInformation ::
  "game \<Rightarrow> (node \<times> message list) list \<Rightarrow> node list \<Rightarrow> error + (int \<times> bool \<times> int) list" where
  "nodeInformation s organizedQueues [] = Inr []"
| "nodeInformation s organizedQueues (n # ns) =
     (case dict_get organizedQueues n of
        Inl e \<Rightarrow> Inl e
      | Inr q \<Rightarrow>
          (case isReachable s n of
             Inl e \<Rightarrow> Inl e
           | Inr r \<Rightarrow>
               (case calculateNodeInfectionReward s n of
                  Inl e \<Rightarrow> Inl e
                | Inr score \<Rightarrow>
                    (case nodeInformation s organizedQueues ns of
                       Inl e \<Rightarrow> Inl e
                     | Inr rest \<Rightarrow> Inr ((int (length q), r, score) # rest)))))"

text \<open>The results \<^verbatim>\<open>random.randint(0, len(queue) + 1)\<close> can have.\<close>

definition position_results :: "'a list \<Rightarrow> int list" where
  "position_results queue = randint 0 (int (length queue) + 1)"

text \<open>
  Lines 225 to 228 of \<^verbatim>\<open>generateTrafficQueues\<close>: the queues (a dictionary keyed by node,
  in the order of the nodes) and the three per-node tuples \<^verbatim>\<open>trafficFlow\<close>,
  \<^verbatim>\<open>reachable\<close> and \<^verbatim>\<open>infectionScores\<close>. Unpacking \<^verbatim>\<open>zip(*nodeInformation)\<close> into three
  names raises \<^verbatim>\<open>ValueError\<close> on a graph without nodes.
\<close>

definition nodeFeatures ::
  "game \<Rightarrow> message list \<Rightarrow>
   error + ((node \<times> message list) list \<times> int list \<times> bool list \<times> int list)" where
  "nodeFeatures s traffic =
     (let organizedQueues =
            map (\<lambda>node. (node, filter (\<lambda>m. destination m = node) traffic)) (nodes (graph s))
      in case nodeInformation s organizedQueues (nodes (graph s)) of
           Inl e \<Rightarrow> Inl e
         | Inr info \<Rightarrow>
             if info = [] then Inl ValueError
             else Inr (organizedQueues, map fst info, map (fst \<circ> snd) info, map (snd \<circ> snd) info))"

definition trafficInfoOf :: "int list \<Rightarrow> bool list \<Rightarrow> int list \<Rightarrow> feature list" where
  "trafficInfoOf trafficFlow reachable infectionScores =
     map Count trafficFlow @ map Flag reachable @ map Count infectionScores"

text \<open>
  \<^verbatim>\<open>generateTrafficQueues\<close> returns the queues, \<^verbatim>\<open>trafficInfo\<close> and \<^verbatim>\<open>attackIndex\<close>; the model
  returns the state as well, which holds the attacker's training points.
\<close>

definition generateTrafficQueues ::
  "world \<Rightarrow> game \<Rightarrow> error + (game \<times> (node \<times> message list) list \<times> feature list \<times> int)" where
  "generateTrafficQueues w s =
     (case generateBackgroundTraffic w s of
        Inl e \<Rightarrow> Inl e
      | Inr traffic \<Rightarrow>
          (case nodeFeatures s traffic of
             Inl e \<Rightarrow> Inl e
           | Inr (organizedQueues, trafficFlow, reachable, infectionScores) \<Rightarrow>
               (let trafficInfo = trafficInfoOf trafficFlow reachable infectionScores;
                    (attackMessage, attackIndex) =
                       getAttack w trafficFlow reachable infectionScores
                         (infectedNodes s) (graph s)
                in case attackMessage of
                     Some am \<Rightarrow>
                       (case dict_get organizedQueues (destination am) of
                          Inl e \<Rightarrow> Inl e
                        | Inr q \<Rightarrow>
                            Inr (s, dict_set organizedQueues (destination am)
                                      (list_insert q (position w) am),
                                 trafficInfo, attackIndex))
                   | None \<Rightarrow>
                       Inr (s\<lparr>attackerPoints :=
                                attackerPoints s @ [(trafficInfo, OUTPUT_SIZE w - 1, Some 0)]\<rparr>,
                            organizedQueues, trafficInfo, attackIndex))))"

subsection \<open>The round\<close>

text \<open>
  The body of the inner loop of \<^verbatim>\<open>runGame\<close> for one message of a queue of length
  \<open>n\<close>: the message is dropped when its edge is gone; otherwise it is inspected or
  skipped, scored on the state as it is, and only then the network is updated.
\<close>

definition skippedInspection :: "world \<Rightarrow> nat \<Rightarrow> game \<Rightarrow> bool" where
  "skippedInspection w n s = inspectionSkipped w (draws s) n"

definition suspicionLabelOf :: "world \<Rightarrow> nat \<Rightarrow> game \<Rightarrow> message \<Rightarrow> label" where
  "suspicionLabelOf w n s m =
     (if skippedInspection w n s then NO_SUSPICION else inspect w (draws s) m)"

definition processMessage ::
  "world \<Rightarrow> feature list \<Rightarrow> int \<Rightarrow> nat \<Rightarrow> game \<Rightarrow> message \<Rightarrow> error + game" where
  "processMessage w trafficInfo attackIndex n s m =
     (if \<not> has_edge (graph s) (origin m) (destination m) then Inr s
      else
        (let skipped = skippedInspection w n s;
             suspicionLabel = suspicionLabelOf w n s m;
             s0 = s\<lparr>draws := draws s + 1\<rparr>
         in case calculateScore s0 m suspicionLabel of
              Inl e \<Rightarrow> Inl e
            | Inr (attackerReward, defenderReward) \<Rightarrow>
                (case updateNetwork s0 m suspicionLabel of
                   Inl e \<Rightarrow> Inl e
                 | Inr s1 \<Rightarrow>
                     (let s2 = (if \<not> skipped
                                then s1\<lparr>defenderPoints :=
                                          defenderPoints s1 @ [(m, suspicionLabel, defenderReward)]\<rparr>
                                else s1)
                      in Inr (if malicious m
                              then s2\<lparr>attackerPoints :=
                                        attackerPoints s2 @ [(trafficInfo, attackIndex, attackerReward)],
                                      lastAttackerScore := attackerReward\<rparr>
                              else s2)))))"

fun processQueue ::
  "world \<Rightarrow> feature list \<Rightarrow> int \<Rightarrow> nat \<Rightarrow> game \<Rightarrow> message list \<Rightarrow> error + game" where
  "processQueue w trafficInfo attackIndex n s [] = Inr s"
| "processQueue w trafficInfo attackIndex n s (m # ms) =
     (case processMessage w trafficInfo attackIndex n s m of
        Inl e \<Rightarrow> Inl e
      | Inr s' \<Rightarrow> processQueue w trafficInfo attackIndex n s' ms)"

fun processQueues ::
  "world \<Rightarrow> feature list \<Rightarrow> int \<Rightarrow> game \<Rightarrow> message list list \<Rightarrow> error + game" where
  "processQueues w trafficInfo attackIndex s [] = Inr s"
| "processQueues w trafficInfo attackIndex s (queue # queues) =
     (case processQueue w trafficInfo attackIndex (length queue) s queue of
        Inl e \<Rightarrow> Inl e
      | Inr s' \<Rightarrow> processQueues w trafficInfo attackIndex s' queues)"

text \<open>One pass through the body of the \<^verbatim>\<open>while\<close> loop of \<^verbatim>\<open>runGame\<close>.\<close>

definition playRound :: "world \<Rightarrow> game \<Rightarrow> error + game" where
  "playRound w s =
     (case generateTrafficQueues w (s\<lparr>roundNumber := roundNumber s + 1\<rparr>) of
        Inl e \<Rightarrow> Inl e
      | Inr (s1, organizedQueues, trafficInfo, attackIndex) \<Rightarrow>
          processQueues w trafficInfo attackIndex (s1\<lparr>lastAttackerScore := Some 0\<rparr>)
            (map snd organizedQueues))"

text \<open>
  \<^verbatim>\<open>runGame\<close>: the loop runs until no node is reachable, which may be never; the model
  runs at most \<open>fuel\<close> rounds and returns \<open>None\<close> when the game is not over by then. Round
  number \<open>k\<close> of the game takes its outside values from \<open>ws k\<close>.
\<close>

fun runGame :: "(nat \<Rightarrow> world) \<Rightarrow> nat \<Rightarrow> game \<Rightarrow> (error + game) option" where
  "runGame ws 0 s = (if gameOver s then Some (Inr s) else None)"
| "runGame ws (Suc fuel) s =
     (if gameOver s then Some (Inr s)
      else case playRound (ws (roundNumber s)) s of
             Inl e \<Rightarrow> Some (Inl e)
           | Inr s' \<Rightarrow> runGame ws fuel s')"

subsection \<open>The states a game goes through\<close>

text \<open>
  In a \<^verbatim>\<open>networkx\<close> graph both ends of an edge are nodes, and the engine only ever
  infects nodes of the graph.
\<close>

definition wf_graph :: "digraph \<Rightarrow> bool" where
  "wf_graph g = (\<forall>e \<in> set (edges g). fst e \<in> set (nodes g) \<and> snd e \<in> set (nodes g))"

definition wf_game :: "game \<Rightarrow> bool" where
  "wf_game s = (wf_graph (graph s) \<and> set (infectedNodes s) \<subseteq> set (nodes (graph s)))"

subsection \<open>The start of a game\<close>

text \<open>
  \<^verbatim>\<open>random.sample(population, 1)\<close>: a list of one element, at the position drawn, and
  \<^verbatim>\<open>ValueError\<close> on an empty population.
\<close>

definition sample1 :: "'a list \<Rightarrow> nat \<Rightarrow> error + 'a list" where
  "sample1 population i = (if i < length population then Inr [population ! i] else Inl ValueError)"

text \<open>
  The body of the loop of \<^verbatim>\<open>initializeNetwork\<close> over the lines of the network file, a
  line given as its two addresses.
\<close>

definition networkLine ::
  "digraph \<times> (node \<times> string) list \<Rightarrow> node \<times> node \<Rightarrow> digraph \<times> (node \<times> string) list" where
  "networkLine gc line =
     (let (g, cm) = gc; (sourceIP, sinkIP) = line;
          (g1, cm1) = (if \<not> has_node g sourceIP
                       then (add_node g sourceIP, dict_set cm sourceIP (COLOR_MAP NO_SUSPICION))
                       else (g, cm));
          (g2, cm2) = (if \<not> has_node g1 sinkIP
                       then (add_node g1 sinkIP, dict_set cm1 sinkIP (COLOR_MAP NO_SUSPICION))
                       else (g1, cm1))
      in (add_edge g2 sourceIP sinkIP, cm2))"

text \<open>
  \<^verbatim>\<open>initializeNetwork\<close>, for the first game: no training point has been recorded and
  \<^verbatim>\<open>lastAttackerScore\<close> has no value yet.
\<close>

definition initializeNetwork :: "(node \<times> node) list \<Rightarrow> nat \<Rightarrow> error + game" where
  "initializeNetwork lines pick =
     (let (g, cm) = foldl networkLine (\<lparr>nodes = [], edges = []\<rparr>, []) lines
      in case sample1 (nodes g) pick of
           Inl e \<Rightarrow> Inl e
         | Inr infected \<Rightarrow>
             (let s = \<lparr>graph = g, colorMap = cm, infectedNodes = infected, quarantinedNodes = [],
                       reachableNodes = [], roundNumber = 0, lastAttackerScore = None,
                       attackerPoints = [], defenderPoints = [], draws = 0\<rparr>
              in case reachableList s (nodes g) of
                   Inl e \<Rightarrow> Inl e
                 | Inr r \<Rightarrow> Inr (s\<lparr>reachableNodes := r\<rparr>)))"

subsection \<open>The specification's formulas\<close>

text \<open>
  The definitions of this subsection follow the words of the specification, not the
  source; the theorems compare the source's functions with them.
\<close>

text \<open>
  The infection potential: 0 if the node is already infected; otherwise 1 plus the
  count of neighbours of the node that are not already infected.
\<close>

definition infectionPotential_spec :: "digraph \<Rightarrow> node list \<Rightarrow> node \<Rightarrow> int" where
  "infectionPotential_spec g infected n =
     (if n \<in> set infected then 0
      else 1 + int (length (filter (\<lambda>v. v \<notin> set infected) (successors g n))))"

text \<open>The count of the current neighbours of the node, plus 1.\<close>

definition outDegreePlusOne_spec :: "digraph \<Rightarrow> node \<Rightarrow> int" where
  "outDegreePlusOne_spec g n = int (length (successors g n)) + 1"

text \<open>The reward table: attacker's and defender's reward by malicious flag and label.\<close>

fun rewardTable_spec :: "int \<Rightarrow> int \<Rightarrow> bool \<Rightarrow> label \<Rightarrow> rat option \<times> rat" where
  "rewardTable_spec A D True HIGH_SUSPICION = (Some (- of_int A), of_int D)"
| "rewardTable_spec A D True MEDIUM_SUSPICION = (Some (- of_int A / 2), of_int D)"
| "rewardTable_spec A D True NO_SUSPICION = (Some (of_int A), - of_int D)"
| "rewardTable_spec A D True LOW_SUSPICION = (Some (of_int A), - of_int D)"
| "rewardTable_spec A D False HIGH_SUSPICION = (None, - of_int D)"
| "rewardTable_spec A D False MEDIUM_SUSPICION = (None, - of_int D / 2)"
| "rewardTable_spec A D False NO_SUSPICION = (None, of_int D)"
| "rewardTable_spec A D False LOW_SUSPICION = (None, of_int D)"

text \<open>The table's rewards for message \<open>m\<close> and label \<open>lbl\<close>, read on the topology of state \<open>s\<close>.\<close>

definition rewardsBefore :: "game \<Rightarrow> message \<Rightarrow> label \<Rightarrow> rat option \<times> rat" where
  "rewardsBefore s m lbl =
     rewardTable_spec (infectionPotential_spec (graph s) (infectedNodes s) (destination m))
       (outDegreePlusOne_spec (graph s) (destination m)) (malicious m) lbl"

subsection \<open>The messages a round delivers\<close>

text \<open>
  The messages of a queue that pass the \<^verbatim>\<open>has_edge\<close> test of the inner loop of
  \<^verbatim>\<open>runGame\<close>, in order: each is tested on the state the messages before it left.
\<close>

fun deliveredQueue ::
  "world \<Rightarrow> feature list \<Rightarrow> int \<Rightarrow> nat \<Rightarrow> game \<Rightarrow> message list \<Rightarrow> message list" where
  "deliveredQueue w trafficInfo attackIndex n s [] = []"
| "deliveredQueue w trafficInfo attackIndex n s (m # ms) =
     (case processMessage w trafficInfo attackIndex n s m of
        Inl e \<Rightarrow> []
      | Inr s' \<Rightarrow>
          (if has_edge (graph s) (origin m) (destination m) then [m] else [])
          @ deliveredQueue w trafficInfo attackIndex n s' ms)"

fun deliveredQueues ::
  "world \<Rightarrow> feature list \<Rightarrow> int \<Rightarrow> game \<Rightarrow> message list list \<Rightarrow> message list" where
  "deliveredQueues w trafficInfo attackIndex s [] = []"
| "deliveredQueues w trafficInfo attackIndex s (queue # queues) =
     (case processQueue w trafficInfo attackIndex (length queue) s queue of
        Inl e \<Rightarrow> []
      | Inr s' \<Rightarrow>
          deliveredQueue w trafficInfo attackIndex (length queue) s queue
          @ deliveredQueues w trafficInfo attackIndex s' queues)"

text \<open>The state vector and the action index of each recorded attacker training point.\<close>

definition sampleTags :: "(feature list \<times> int \<times> rat option) list \<Rightarrow> (feature list \<times> int) list" where
  "sampleTags ps = map (\<lambda>p. (fst p, fst (snd p))) ps"

text \<open>The reward of the last of the points \<open>ps\<close>, and \<open>r\<close> when there is none.\<close>

definition lastScore :: "rat option \<Rightarrow> (feature list \<times> int \<times> rat option) list \<Rightarrow> rat option" where
  "lastScore r ps = (if ps = [] then r else snd (snd (last ps)))"

text \<open>
  State \<open>s'\<close> comes after state \<open>s\<close>: no infected and no quarantined node is lost, no
  edge is gained, and the nodes are the same.
\<close>

definition evolves :: "game \<Rightarrow> game \<Rightarrow> bool" where
  "evolves s s' =
     (set (infectedNodes s) \<subseteq> set (infectedNodes s') \<and>
      set (quarantinedNodes s) \<subseteq> set (quarantinedNodes s') \<and>
      set (edges (graph s')) \<subseteq> set (edges (graph s)) \<and>
      nodes (graph s') = nodes (graph s))"

subsection \<open>A three-node game\<close>

text \<open>
  The network A \<open>\<rightarrow>\<close> B, B \<open>\<rightarrow>\<close> C with A infected. In the round of \<open>ex_world\<close> the dataset
  has a benign and a malicious record, one background message is drawn (the malicious
  record, from A to B), the attacker returns no attack message and action index 2,
  no inspection is skipped (as when every draw of \<^verbatim>\<open>random.random()\<close> is 0.0), and the
  defender finds nothing.
\<close>

definition ex_graph :: digraph where
  "ex_graph = \<lparr>nodes = [''A'', ''B'', ''C''], edges = [(''A'', ''B''), (''B'', ''C'')]\<rparr>"

definition ex_game :: game where
  "ex_game = \<lparr>graph = ex_graph,
              colorMap = [(''A'', ''blue''), (''B'', ''blue''), (''C'', ''blue'')],
              infectedNodes = [''A''], quarantinedNodes = [],
              reachableNodes = [0, 1, 0], roundNumber = 0, lastAttackerScore = None,
              attackerPoints = [], defenderPoints = [], draws = 0\<rparr>"

definition ex_world :: world where
  "ex_world = \<lparr>ORIGIN_INDEX = 0, DESTINATION_INDEX = 1,
               isMaliciousRow = (\<lambda>row. ''attack'' \<in> set row),
               OUTPUT_SIZE = 4,
               getAttack = (\<lambda>trafficFlow reachable infectionScores infected g. (None, 2)),
               inspect = (\<lambda>k m. NO_SUSPICION),
               dataset = [[''10.0.0.1'', ''10.0.0.2'', ''normal''],
                          [''10.0.0.3'', ''10.0.0.4'', ''attack'']],
               inspectionSkipped = (\<lambda>k n. False),
               trafficDraws = [(1, 0, 0)],
               position = 0\<rparr>"

definition ex_message :: message where
  "ex_message = \<lparr>origin = ''A'', destination = ''B'', malicious = True,
                 payload = [''A'', ''B'', ''attack'']\<rparr>"

definition ex_trafficInfo :: "feature list" where
  "ex_trafficInfo = [Count 0, Count 1, Count 0, Flag False, Flag True, Flag False,
                     Count 0, Count 2, Count 1]"

text \<open>The state when the processing of the queues starts, and the state when it ends.\<close>

definition ex_started :: game where
  "ex_started = ex_game\<lparr>roundNumber := 1, lastAttackerScore := Some 0,
                        attackerPoints := [(ex_trafficInfo, 3, Some 0)]\<rparr>"

definition ex_delivered :: game where
  "ex_delivered = ex_game\<lparr>infectedNodes := [''A'', ''B''], reachableNodes := [0, 0, 1],
                          draws := 1\<rparr>"

definition ex_after :: game where
  "ex_after = ex_game\<lparr>infectedNodes := [''A'', ''B''], reachableNodes := [0, 0, 1],
                      roundNumber := 1, lastAttackerScore := Some 2,
                      attackerPoints := [(ex_trafficInfo, 3, Some 0), (ex_trafficInfo, 2, Some 2)],
                      defenderPoints := [(ex_message, NO_SUSPICION, - 2)],
                      draws := 1\<rparr>"

text \<open>The three-node game after a quarantine of A at the highest label.\<close>

definition ex_quarantined :: game where
  "ex_quarantined = ex_game\<lparr>graph := \<lparr>nodes = [''A'', ''B'', ''C''], edges = [(''B'', ''C'')]\<rparr>,
                            quarantinedNodes := [''A'']\<rparr>"

text \<open>A network in which A has two outgoing edges, with A infected.\<close>

definition ex_fan :: game where
  "ex_fan = ex_game\<lparr>graph := \<lparr>nodes = [''A'', ''B'', ''C''],
                               edges = [(''A'', ''B''), (''A'', ''C''), (''B'', ''C'')]\<rparr>,
                    reachableNodes := [0, 1, 1]\<rparr>"

text \<open>The round of \<open>ex_world\<close> with a dataset read as benign throughout.\<close>

definition ex_quiet_world :: world where
  "ex_quiet_world = ex_world\<lparr>isMaliciousRow := (\<lambda>row. False)\<rparr>"

definition ex_benign :: message where
  "ex_benign = ex_message\<lparr>malicious := False\<rparr>"

text \<open>
  The round of \<open>ex_world\<close> with a defender that gives every message the highest label,
  and the state after the delivery of the malicious message from A to B under it.
\<close>

definition ex_strict_world :: world where
  "ex_strict_world = ex_world\<lparr>inspect := (\<lambda>k m. HIGH_SUSPICION)\<rparr>"

definition ex_repelled :: game where
  "ex_repelled = ex_game\<lparr>graph := \<lparr>nodes = [''A'', ''B'', ''C''], edges = [(''B'', ''C'')]\<rparr>,
                         colorMap := [(''A'', ''red''), (''B'', ''blue''), (''C'', ''blue'')],
                         quarantinedNodes := [''A''], reachableNodes := [0, 0, 0],
                         attackerPoints := [(ex_trafficInfo, 2, Some (- 2))],
                         defenderPoints := [(ex_message, HIGH_SUSPICION, 2)],
                         lastAttackerScore := Some (- 2), draws := 1\<rparr>"

section \<open>Lemmas\<close>

subsection \<open>Neighbours and reachability\<close>

lemma neighbors_in: "n \<in> set (nodes g) \<Longrightarrow> neighbors g n = Inr (successors g n)"
  by (simp add: neighbors_def)

lemma in_successors: "v \<in> set (successors g u) \<longleftrightarrow> has_edge g u v"
  by (force simp: successors_def has_edge_def)

lemma reachableFrom_eq:
  "set is \<subseteq> set (nodes g) \<Longrightarrow> reachableFrom g n is = Inr (\<exists>i \<in> set is. has_edge g i n)"
  by (induction "is") (auto simp: neighbors_in in_successors)

lemma isReachable_eq:
  "set (infectedNodes s) \<subseteq> set (nodes (graph s)) \<Longrightarrow>
   isReachable s n = Inr (n \<notin> set (infectedNodes s) \<and> (\<exists>i \<in> set (infectedNodes s). has_edge (graph s) i n))"
  by (simp add: isReachable_def reachableFrom_eq)

lemma reachableList_ok:
  "set (infectedNodes s) \<subseteq> set (nodes (graph s)) \<Longrightarrow> \<exists>r. reachableList s ns = Inr r"
  by (induction ns) (auto simp: isReachable_eq)

subsection \<open>Quarantine\<close>

lemma out_edges_subset: "set (out_edges g u) \<subseteq> set (edges g)"
  by (auto simp: out_edges_def successors_def)

lemma out_edges_node:
  "u \<in> set (nodes g) \<Longrightarrow> set (out_edges g u) = {e \<in> set (edges g). fst e = u}"
  by (force simp: out_edges_def nbunch_iter_def successors_def)

lemma remove_out_edges:
  "u \<in> set (nodes g) \<Longrightarrow>
   remove_edges_from g (out_edges g u) = g\<lparr>edges := filter (\<lambda>e. fst e \<noteq> u) (edges g)\<rparr>"
proof -
  assume u: "u \<in> set (nodes g)"
  have "filter (\<lambda>e. e \<notin> set (out_edges g u)) (edges g) = filter (\<lambda>e. fst e \<noteq> u) (edges g)"
    by (rule filter_cong) (auto simp: out_edges_node [OF u])
  then show ?thesis by (simp add: remove_edges_from_def)
qed

lemma quarantineNode_HIGH:
  "u \<in> set (nodes (graph s)) \<Longrightarrow>
   quarantineNode s u d HIGH_SUSPICION =
     Inr (s\<lparr>quarantinedNodes :=
               (if u \<in> set (quarantinedNodes s) then quarantinedNodes s else quarantinedNodes s @ [u]),
            graph := (graph s)\<lparr>edges := filter (\<lambda>e. fst e \<noteq> u) (edges (graph s))\<rparr>\<rparr>)"
  by (simp add: quarantineNode_def Let_def remove_out_edges)

lemma quarantineNode_MEDIUM:
  "lbl \<noteq> HIGH_SUSPICION \<Longrightarrow>
   quarantineNode s u d lbl =
     (if has_edge (graph s) u d
      then Inr (s\<lparr>graph := (graph s)\<lparr>edges := removeAll (u, d) (edges (graph s))\<rparr>\<rparr>)
      else Inl NetworkXError)"
  by (simp add: quarantineNode_def remove_edge_def has_edge_def)

subsection \<open>No operation loses an infected or quarantined node or gains an edge\<close>

lemma evolves_refl: "evolves s s"
  by (simp add: evolves_def)

lemma evolves_trans: "evolves s t \<Longrightarrow> evolves t u \<Longrightarrow> evolves s u"
  by (auto simp: evolves_def)

lemma infectNode_evolves: "evolves s (infectNode s d)"
  by (auto simp: evolves_def infectNode_def)

lemma quarantineNode_evolves: "quarantineNode s u d lbl = Inr s' \<Longrightarrow> evolves s s'"
  by (auto simp: evolves_def quarantineNode_def Let_def remove_edges_from_def remove_edge_def
      split: if_splits sum.splits)

lemma updateNetwork_evolves: "updateNetwork s m lbl = Inr s' \<Longrightarrow> evolves s s'"
proof -
  assume u: "updateNetwork s m lbl = Inr s'"
  let ?s1 = "s\<lparr>colorMap := dict_set (colorMap s) (origin m) (COLOR_MAP lbl)\<rparr>"
  have e1: "evolves s ?s1" by (simp add: evolves_def)
  from u obtain s2 r where
    s2: "(if lbl = HIGH_SUSPICION \<or> lbl = MEDIUM_SUSPICION
            then quarantineNode ?s1 (origin m) (destination m) lbl
            else if malicious m then Inr (infectNode ?s1 (destination m))
            else Inr ?s1) = Inr s2"
    and s': "s' = s2\<lparr>reachableNodes := r\<rparr>"
    by (auto simp: updateNetwork_def Let_def split: sum.splits)
  from s2 have "evolves ?s1 s2"
    by (auto split: if_splits intro: quarantineNode_evolves infectNode_evolves evolves_refl)
  with e1 have "evolves s s2" by (rule evolves_trans)
  then show ?thesis by (simp add: s' evolves_def)
qed

lemma processMessage_evolves:
  "processMessage w ti ai n s m = Inr s' \<Longrightarrow> evolves s s'"
proof -
  assume p: "processMessage w ti ai n s m = Inr s'"
  show ?thesis
  proof (cases "has_edge (graph s) (origin m) (destination m)")
    case False
    with p show ?thesis by (simp add: processMessage_def evolves_refl)
  next
    case True
    with p obtain s1 where
      u: "updateNetwork (s\<lparr>draws := draws s + 1\<rparr>) m (suspicionLabelOf w n s m) = Inr s1"
      and inf: "infectedNodes s' = infectedNodes s1"
      and qua: "quarantinedNodes s' = quarantinedNodes s1"
      and gr: "graph s' = graph s1"
      by (auto simp: processMessage_def Let_def split: sum.splits prod.splits if_splits)
    from updateNetwork_evolves [OF u] show ?thesis
      by (simp add: evolves_def inf qua gr)
  qed
qed

lemma processQueue_evolves:
  "processQueue w ti ai n s ms = Inr s' \<Longrightarrow> evolves s s'"
proof (induction ms arbitrary: s)
  case Nil
  then show ?case by (simp add: evolves_refl)
next
  case (Cons m ms)
  then show ?case
    by (auto split: sum.splits intro: evolves_trans processMessage_evolves)
qed

lemma processQueues_evolves:
  "processQueues w ti ai s qs = Inr s' \<Longrightarrow> evolves s s'"
proof (induction qs arbitrary: s)
  case Nil
  then show ?case by (simp add: evolves_refl)
next
  case (Cons q qs)
  then show ?case
    by (auto split: sum.splits intro: evolves_trans processQueue_evolves)
qed

lemma generateTrafficQueues_state:
  "generateTrafficQueues w s = Inr (s1, Q, ti, ai) \<Longrightarrow>
   s1 = s \<or> s1 = s\<lparr>attackerPoints := attackerPoints s @ [(ti, OUTPUT_SIZE w - 1, Some 0)]\<rparr>"
  by (auto simp: generateTrafficQueues_def Let_def
      split: sum.splits if_splits prod.splits option.splits)

lemma playRound_evolves: "playRound w s = Inr s' \<Longrightarrow> evolves s s'"
proof -
  assume p: "playRound w s = Inr s'"
  let ?s0 = "s\<lparr>roundNumber := roundNumber s + 1\<rparr>"
  from p obtain s1 Q ti ai where
    g: "generateTrafficQueues w ?s0 = Inr (s1, Q, ti, ai)"
    and q: "processQueues w ti ai (s1\<lparr>lastAttackerScore := Some 0\<rparr>) (map snd Q) = Inr s'"
    by (auto simp: playRound_def split: sum.splits prod.splits)
  from generateTrafficQueues_state [OF g] have "evolves s (s1\<lparr>lastAttackerScore := Some 0\<rparr>)"
    by (auto simp: evolves_def)
  with processQueues_evolves [OF q] show ?thesis by (blast intro: evolves_trans)
qed

lemma runGame_evolves: "runGame ws fuel s = Some (Inr s') \<Longrightarrow> evolves s s'"
proof (induction fuel arbitrary: s)
  case 0
  then show ?case by (simp add: evolves_refl split: if_splits)
next
  case (Suc fuel)
  then show ?case
    by (auto split: if_splits sum.splits intro: evolves_refl evolves_trans playRound_evolves)
qed

subsection \<open>Scores and the delivery of one message\<close>

lemma calculateNodeInfectionReward_eq:
  "n \<in> set (nodes (graph s)) \<Longrightarrow>
   calculateNodeInfectionReward s n = Inr (infectionPotential_spec (graph s) (infectedNodes s) n)"
  by (simp add: calculateNodeInfectionReward_def infectionPotential_spec_def neighbors_in)

lemma calculateScore_eq:
  "destination m \<in> set (nodes (graph s)) \<Longrightarrow> calculateScore s m lbl = Inr (rewardsBefore s m lbl)"
  by (cases lbl; cases "malicious m")
     (simp_all add: calculateScore_def calculateNodeInfectionReward_eq neighbors_in Let_def
        rewardsBefore_def outDegreePlusOne_spec_def add_divide_distrib)

lemma wf_edge_nodes:
  "wf_graph g \<Longrightarrow> has_edge g u v \<Longrightarrow> u \<in> set (nodes g) \<and> v \<in> set (nodes g)"
  by (force simp: wf_graph_def has_edge_def)

lemma evolves_wf_graph: "evolves s s' \<Longrightarrow> wf_graph (graph s) \<Longrightarrow> wf_graph (graph s')"
  by (auto simp: evolves_def wf_graph_def)

lemma quarantineNode_infected: "quarantineNode s u d lbl = Inr s' \<Longrightarrow> infectedNodes s' = infectedNodes s"
  by (auto simp: quarantineNode_def Let_def split: if_splits sum.splits)

lemma quarantineNode_wf: "quarantineNode s u d lbl = Inr s' \<Longrightarrow> wf_game s \<Longrightarrow> wf_game s'"
  using quarantineNode_evolves [of s u d lbl s'] quarantineNode_infected [of s u d lbl s']
    evolves_wf_graph [of s s']
  by (auto simp: wf_game_def evolves_def)

lemma infectNode_wf: "wf_game s \<Longrightarrow> d \<in> set (nodes (graph s)) \<Longrightarrow> wf_game (infectNode s d)"
  by (auto simp: wf_game_def infectNode_def)

lemma quarantineNode_ok:
  "has_edge (graph s) u d \<Longrightarrow> \<exists>s'. quarantineNode s u d lbl = Inr s'"
  by (simp add: quarantineNode_def Let_def remove_edge_def has_edge_def)

lemma updateNetwork_ok:
  assumes wf: "wf_game s" and e: "has_edge (graph s) (origin m) (destination m)"
  shows "\<exists>s'. updateNetwork s m lbl = Inr s' \<and> wf_game s'"
proof -
  let ?s1 = "s\<lparr>colorMap := dict_set (colorMap s) (origin m) (COLOR_MAP lbl)\<rparr>"
  have wf1: "wf_game ?s1" using wf by (simp add: wf_game_def)
  have e1: "has_edge (graph ?s1) (origin m) (destination m)" using e by simp
  have d: "destination m \<in> set (nodes (graph ?s1))"
    using wf e wf_edge_nodes [of "graph s"] by (auto simp: wf_game_def)
  have "\<exists>s2. (if lbl = HIGH_SUSPICION \<or> lbl = MEDIUM_SUSPICION
            then quarantineNode ?s1 (origin m) (destination m) lbl
            else if malicious m then Inr (infectNode ?s1 (destination m))
            else Inr ?s1) = Inr s2 \<and> wf_game s2"
  proof (cases "lbl = HIGH_SUSPICION \<or> lbl = MEDIUM_SUSPICION")
    case True
    from quarantineNode_ok [OF e1] obtain s2
      where q: "quarantineNode ?s1 (origin m) (destination m) lbl = Inr s2" by blast
    from quarantineNode_wf [OF q wf1] q True show ?thesis by auto
  next
    case False
    then show ?thesis using wf1 infectNode_wf [OF wf1 d] by auto
  qed
  then obtain s2 where
    s2: "(if lbl = HIGH_SUSPICION \<or> lbl = MEDIUM_SUSPICION
            then quarantineNode ?s1 (origin m) (destination m) lbl
            else if malicious m then Inr (infectNode ?s1 (destination m))
            else Inr ?s1) = Inr s2" and wf2: "wf_game s2" by blast
  from wf2 have "set (infectedNodes s2) \<subseteq> set (nodes (graph s2))" by (simp add: wf_game_def)
  from reachableList_ok [OF this] obtain r where r: "reachableList s2 (nodes (graph s2)) = Inr r"
    by blast
  have "updateNetwork s m lbl = Inr (s2\<lparr>reachableNodes := r\<rparr>)"
    unfolding updateNetwork_def Let_def using s2 r by simp
  moreover have "wf_game (s2\<lparr>reachableNodes := r\<rparr>)" using wf2 by (simp add: wf_game_def)
  ultimately show ?thesis by blast
qed

lemma updateNetwork_frame:
  "updateNetwork s m lbl = Inr s' \<Longrightarrow>
   attackerPoints s' = attackerPoints s \<and> defenderPoints s' = defenderPoints s \<and>
   lastAttackerScore s' = lastAttackerScore s \<and> draws s' = draws s \<and> roundNumber s' = roundNumber s"
  by (auto simp: updateNetwork_def Let_def quarantineNode_def infectNode_def
      split: sum.splits if_splits)

lemma processMessage_dropped:
  "\<not> has_edge (graph s) (origin m) (destination m) \<Longrightarrow> processMessage w ti ai n s m = Inr s"
  by (simp add: processMessage_def)

lemma processMessage_delivered:
  assumes wf: "wf_game s" and e: "has_edge (graph s) (origin m) (destination m)"
  shows "\<exists>s1. updateNetwork (s\<lparr>draws := draws s + 1\<rparr>) m (suspicionLabelOf w n s m) = Inr s1 \<and>
           wf_game s1 \<and>
           processMessage w ti ai n s m =
             Inr (s1\<lparr>defenderPoints := defenderPoints s @
                        (if skippedInspection w n s then []
                         else [(m, suspicionLabelOf w n s m, snd (rewardsBefore s m (suspicionLabelOf w n s m)))]),
                      attackerPoints := attackerPoints s @
                        (if malicious m
                         then [(ti, ai, fst (rewardsBefore s m (suspicionLabelOf w n s m)))] else []),
                      lastAttackerScore :=
                        (if malicious m then fst (rewardsBefore s m (suspicionLabelOf w n s m))
                         else lastAttackerScore s)\<rparr>)"
proof -
  let ?s0 = "s\<lparr>draws := draws s + 1\<rparr>"
  let ?lbl = "suspicionLabelOf w n s m"
  have wf0: "wf_game ?s0" using wf by (simp add: wf_game_def)
  have e0: "has_edge (graph ?s0) (origin m) (destination m)" using e by simp
  from updateNetwork_ok [OF wf0 e0] obtain s1
    where u: "updateNetwork ?s0 m ?lbl = Inr s1" and wf1: "wf_game s1" by blast
  have d: "destination m \<in> set (nodes (graph ?s0))"
    using wf e wf_edge_nodes [of "graph s"] by (auto simp: wf_game_def)
  have c: "calculateScore ?s0 m ?lbl = Inr (rewardsBefore s m ?lbl)"
    using calculateScore_eq [OF d] by (simp add: rewardsBefore_def)
  have fr: "attackerPoints s1 = attackerPoints s" "defenderPoints s1 = defenderPoints s"
    "lastAttackerScore s1 = lastAttackerScore s"
    using updateNetwork_frame [OF u] by simp_all
  have "processMessage w ti ai n s m =
             Inr (s1\<lparr>defenderPoints := defenderPoints s @
                        (if skippedInspection w n s then []
                         else [(m, ?lbl, snd (rewardsBefore s m ?lbl))]),
                      attackerPoints := attackerPoints s @
                        (if malicious m then [(ti, ai, fst (rewardsBefore s m ?lbl))] else []),
                      lastAttackerScore :=
                        (if malicious m then fst (rewardsBefore s m ?lbl) else lastAttackerScore s)\<rparr>)"
    unfolding processMessage_def Let_def using e c u fr
    by (cases "rewardsBefore s m ?lbl") (simp add: fr [symmetric])
  with u wf1 show ?thesis by blast
qed

subsection \<open>The training points of a round\<close>

lemma lastScore_append: "lastScore (lastScore r ps) qs = lastScore r (ps @ qs)"
  by (simp add: lastScore_def)

lemma sampleTags_append: "sampleTags (ps @ qs) = sampleTags ps @ sampleTags qs"
  by (simp add: sampleTags_def)

lemma processMessage_points:
  assumes wf: "wf_game s"
  shows "\<exists>s' new. processMessage w ti ai n s m = Inr s' \<and> wf_game s' \<and>
           attackerPoints s' = attackerPoints s @ new \<and>
           new = (if has_edge (graph s) (origin m) (destination m) \<and> malicious m
                  then [(ti, ai, fst (rewardsBefore s m (suspicionLabelOf w n s m)))] else []) \<and>
           lastAttackerScore s' = lastScore (lastAttackerScore s) new"
proof (cases "has_edge (graph s) (origin m) (destination m)")
  case False
  then show ?thesis using wf by (simp add: processMessage_dropped lastScore_def)
next
  case True
  from processMessage_delivered [OF wf True, of w n ti ai] obtain s1 where
    wf1: "wf_game s1" and
    p: "processMessage w ti ai n s m =
             Inr (s1\<lparr>defenderPoints := defenderPoints s @
                        (if skippedInspection w n s then []
                         else [(m, suspicionLabelOf w n s m, snd (rewardsBefore s m (suspicionLabelOf w n s m)))]),
                      attackerPoints := attackerPoints s @
                        (if malicious m
                         then [(ti, ai, fst (rewardsBefore s m (suspicionLabelOf w n s m)))] else []),
                      lastAttackerScore :=
                        (if malicious m then fst (rewardsBefore s m (suspicionLabelOf w n s m))
                         else lastAttackerScore s)\<rparr>)"
    by blast
  show ?thesis unfolding p using wf1 True by (simp add: wf_game_def lastScore_def)
qed

lemma processQueue_points:
  "wf_game s \<Longrightarrow>
   \<exists>s' new. processQueue w ti ai n s ms = Inr s' \<and> wf_game s' \<and>
     attackerPoints s' = attackerPoints s @ new \<and>
     sampleTags new = map (\<lambda>m. (ti, ai)) (filter malicious (deliveredQueue w ti ai n s ms)) \<and>
     lastAttackerScore s' = lastScore (lastAttackerScore s) new"
proof (induction ms arbitrary: s)
  case Nil
  then show ?case by (simp add: sampleTags_def lastScore_def)
next
  case (Cons m ms)
  from processMessage_points [OF Cons.prems, of w ti ai n m] obtain s1 new1 where
    p: "processMessage w ti ai n s m = Inr s1" and wf1: "wf_game s1" and
    a1: "attackerPoints s1 = attackerPoints s @ new1" and
    n1: "new1 = (if has_edge (graph s) (origin m) (destination m) \<and> malicious m
                  then [(ti, ai, fst (rewardsBefore s m (suspicionLabelOf w n s m)))] else [])" and
    l1: "lastAttackerScore s1 = lastScore (lastAttackerScore s) new1"
    by blast
  from Cons.IH [OF wf1] obtain s2 new2 where
    q: "processQueue w ti ai n s1 ms = Inr s2" and wf2: "wf_game s2" and
    a2: "attackerPoints s2 = attackerPoints s1 @ new2" and
    t2: "sampleTags new2 = map (\<lambda>m. (ti, ai)) (filter malicious (deliveredQueue w ti ai n s1 ms))" and
    l2: "lastAttackerScore s2 = lastScore (lastAttackerScore s1) new2"
    by blast
  have t1: "sampleTags new1 =
      map (\<lambda>m. (ti, ai)) (filter malicious (if has_edge (graph s) (origin m) (destination m) then [m] else []))"
    by (simp add: n1 sampleTags_def)
  have "processQueue w ti ai n s (m # ms) = Inr s2" using p q by simp
  moreover have "attackerPoints s2 = attackerPoints s @ (new1 @ new2)" using a1 a2 by simp
  moreover have "sampleTags (new1 @ new2) =
     map (\<lambda>m. (ti, ai)) (filter malicious (deliveredQueue w ti ai n s (m # ms)))"
    using p t1 t2 by (simp add: sampleTags_append)
  moreover have "lastAttackerScore s2 = lastScore (lastAttackerScore s) (new1 @ new2)"
    using l1 l2 by (simp add: lastScore_append)
  ultimately show ?case using wf2 by blast
qed

lemma processQueues_points:
  "wf_game s \<Longrightarrow>
   \<exists>s' new. processQueues w ti ai s qs = Inr s' \<and> wf_game s' \<and>
     attackerPoints s' = attackerPoints s @ new \<and>
     sampleTags new = map (\<lambda>m. (ti, ai)) (filter malicious (deliveredQueues w ti ai s qs)) \<and>
     lastAttackerScore s' = lastScore (lastAttackerScore s) new"
proof (induction qs arbitrary: s)
  case Nil
  then show ?case by (simp add: sampleTags_def lastScore_def)
next
  case (Cons q qs)
  from processQueue_points [OF Cons.prems, of w ti ai "length q" q] obtain s1 new1 where
    p: "processQueue w ti ai (length q) s q = Inr s1" and wf1: "wf_game s1" and
    a1: "attackerPoints s1 = attackerPoints s @ new1" and
    t1: "sampleTags new1 = map (\<lambda>m. (ti, ai)) (filter malicious (deliveredQueue w ti ai (length q) s q))" and
    l1: "lastAttackerScore s1 = lastScore (lastAttackerScore s) new1"
    by blast
  from Cons.IH [OF wf1] obtain s2 new2 where
    q: "processQueues w ti ai s1 qs = Inr s2" and wf2: "wf_game s2" and
    a2: "attackerPoints s2 = attackerPoints s1 @ new2" and
    t2: "sampleTags new2 = map (\<lambda>m. (ti, ai)) (filter malicious (deliveredQueues w ti ai s1 qs))" and
    l2: "lastAttackerScore s2 = lastScore (lastAttackerScore s1) new2"
    by blast
  have "processQueues w ti ai s (q # qs) = Inr s2" using p q by simp
  moreover have "attackerPoints s2 = attackerPoints s @ (new1 @ new2)" using a1 a2 by simp
  moreover have "sampleTags (new1 @ new2) =
     map (\<lambda>m. (ti, ai)) (filter malicious (deliveredQueues w ti ai s (q # qs)))"
    using p t1 t2 by (simp add: sampleTags_append)
  moreover have "lastAttackerScore s2 = lastScore (lastAttackerScore s) (new1 @ new2)"
    using l1 l2 by (simp add: lastScore_append)
  ultimately show ?case using wf2 by blast
qed

lemma deliveredQueue_subset: "set (deliveredQueue w ti ai n s ms) \<subseteq> set ms"
  by (induction ms arbitrary: s) (auto split: sum.splits if_splits)

lemma deliveredQueues_subset: "set (deliveredQueues w ti ai s qs) \<subseteq> set (concat qs)"
proof (induction qs arbitrary: s)
  case Nil
  then show ?case by simp
next
  case (Cons q qs)
  then show ?case using deliveredQueue_subset [of w ti ai "length q" s q]
    by (auto split: sum.splits)
qed

subsection \<open>The invariant of the states of a game\<close>

lemma add_node_wf: "wf_graph g \<Longrightarrow> wf_graph (add_node g n)"
  by (auto simp: wf_graph_def add_node_def)

lemma add_edge_wf: "wf_graph g \<Longrightarrow> wf_graph (add_edge g a b)"
  by (auto simp: wf_graph_def add_edge_def add_node_def Let_def)

lemma networkLine_wf: "wf_graph (fst gc) \<Longrightarrow> wf_graph (fst (networkLine gc line))"
  by (cases gc; cases line) (simp add: networkLine_def Let_def add_edge_wf add_node_wf)

lemma foldl_networkLine_wf: "wf_graph (fst gc) \<Longrightarrow> wf_graph (fst (foldl networkLine gc lines))"
  by (induction lines arbitrary: gc) (simp_all add: networkLine_wf)

lemma initializeNetwork_wf: "initializeNetwork lines pick = Inr s \<Longrightarrow> wf_game s"
proof -
  assume i: "initializeNetwork lines pick = Inr s"
  let ?gc = "foldl networkLine (\<lparr>nodes = [], edges = []\<rparr>, []) lines"
  have "wf_graph (fst (\<lparr>nodes = [], edges = []\<rparr>, [] :: (node \<times> string) list))"
    by (simp add: wf_graph_def)
  then have wf: "wf_graph (fst ?gc)" by (rule foldl_networkLine_wf)
  from i have
    g: "graph s = fst ?gc" and inf: "sample1 (nodes (fst ?gc)) pick = Inr (infectedNodes s)"
    by (cases ?gc; auto simp: initializeNetwork_def Let_def split: sum.splits)+
  from inf have "pick < length (nodes (fst ?gc))"
    and "infectedNodes s = [nodes (fst ?gc) ! pick]"
    by (auto simp: sample1_def split: if_splits)
  then have "set (infectedNodes s) \<subseteq> set (nodes (fst ?gc))"
    by simp
  with wf g show ?thesis by (simp add: wf_game_def)
qed

lemma playRound_ok:
  assumes wf: "wf_game s"
    and g: "generateTrafficQueues w (s\<lparr>roundNumber := roundNumber s + 1\<rparr>) = Inr (s1, Q, ti, ai)"
  shows "\<exists>s'. playRound w s = Inr s' \<and> wf_game s'"
proof -
  from generateTrafficQueues_state [OF g] wf have "wf_game (s1\<lparr>lastAttackerScore := Some 0\<rparr>)"
    by (auto simp: wf_game_def)
  from processQueues_points [OF this, of w ti ai "map snd Q"] show ?thesis
    using g by (auto simp: playRound_def)
qed

lemma nodeFeatures_queues:
  "nodeFeatures s traffic = Inr (Q, tf, r, sc) \<Longrightarrow> set (concat (map snd Q)) \<subseteq> set traffic"
  by (auto simp: nodeFeatures_def Let_def split: sum.splits if_splits)

lemma generateTrafficQueues_none:
  assumes "generateBackgroundTraffic w s = Inr traffic"
    and "nodeFeatures s traffic = Inr (Q, tf, r, sc)"
    and "getAttack w tf r sc (infectedNodes s) (graph s) = (None, ai)"
  shows "generateTrafficQueues w s =
     Inr (s\<lparr>attackerPoints :=
              attackerPoints s @ [(trafficInfoOf tf r sc, OUTPUT_SIZE w - 1, Some 0)]\<rparr>,
          Q, trafficInfoOf tf r sc, ai)"
  using assms by (simp add: generateTrafficQueues_def Let_def)

lemma generateTrafficQueues_index:
  assumes g: "generateTrafficQueues w s = Inr (s1, Q, ti, ai)"
  shows "\<exists>traffic Q0 tf r sc. nodeFeatures s traffic = Inr (Q0, tf, r, sc) \<and>
      ai = snd (getAttack w tf r sc (infectedNodes s) (graph s)) \<and>
      ti = trafficInfoOf tf r sc"
proof -
  from g obtain traffic where bt: "generateBackgroundTraffic w s = Inr traffic"
    by (auto simp: generateTrafficQueues_def split: sum.splits)
  from g bt obtain Q0 tf r sc where nf: "nodeFeatures s traffic = Inr (Q0, tf, r, sc)"
    by (auto simp: generateTrafficQueues_def split: sum.splits)
  obtain am i where ga: "getAttack w tf r sc (infectedNodes s) (graph s) = (am, i)"
    by (cases "getAttack w tf r sc (infectedNodes s) (graph s)")
  from g bt nf ga have "ai = i \<and> ti = trafficInfoOf tf r sc"
    by (auto simp: generateTrafficQueues_def Let_def split: sum.splits option.splits)
  with ga have "ai = snd (getAttack w tf r sc (infectedNodes s) (graph s)) \<and>
      ti = trafficInfoOf tf r sc"
    by simp
  with nf show ?thesis by blast
qed

subsection \<open>The three-node game, evaluated\<close>

lemma ex_init: "initializeNetwork [(''A'', ''B''), (''B'', ''C'')] 0 = Inr ex_game"
  by (simp add: initializeNetwork_def networkLine_def sample1_def has_node_def add_node_def
      add_edge_def Let_def ex_game_def ex_graph_def isReachable_def neighbors_def successors_def)

lemma ex_wf: "wf_game ex_game"
  by (simp add: wf_game_def wf_graph_def ex_game_def ex_graph_def)

lemma ex_traffic:
  "generateBackgroundTraffic ex_world (ex_game\<lparr>roundNumber := k\<rparr>) = Inr [ex_message]"
  by (simp add: generateBackgroundTraffic_def ex_world_def ex_game_def ex_graph_def
      rowIndex_results_def randint_def iloc_def Let_def choice_def list_set_def has_edge_def
      Message_def ex_message_def)

lemma ex_features:
  "nodeFeatures (ex_game\<lparr>roundNumber := k\<rparr>) [ex_message] =
     Inr ([(''A'', []), (''B'', [ex_message]), (''C'', [])],
          [0, 1, 0], [False, True, False], [0, 2, 1])"
  by (simp add: nodeFeatures_def ex_game_def ex_graph_def ex_message_def
      dict_get_def isReachable_def neighbors_def successors_def
      calculateNodeInfectionReward_def Let_def)

lemma ex_getAttack: "getAttack ex_world tf r sc infected g = (None, 2)"
  by (simp add: ex_world_def)

lemma ex_queues:
  "generateTrafficQueues ex_world (ex_game\<lparr>roundNumber := k\<rparr>) =
     Inr (ex_game\<lparr>roundNumber := k, attackerPoints := [(ex_trafficInfo, 3, Some 0)]\<rparr>,
          [(''A'', []), (''B'', [ex_message]), (''C'', [])], ex_trafficInfo, 2)"
  by (simp add: generateTrafficQueues_def ex_traffic ex_features ex_getAttack trafficInfoOf_def
      ex_trafficInfo_def)
     (simp add: ex_world_def ex_game_def Let_def)

lemma ex_not_skipped: "\<not> skippedInspection ex_world n s"
  by (simp add: skippedInspection_def ex_world_def)

lemma ex_label: "suspicionLabelOf ex_world n s m = NO_SUSPICION"
  by (simp add: suspicionLabelOf_def ex_world_def)

lemma ex_edge: "has_edge (graph ex_game) (origin ex_message) (destination ex_message)"
  by (simp add: has_edge_def ex_game_def ex_graph_def ex_message_def)

lemma ex_score: "calculateScore ex_game ex_message NO_SUSPICION = Inr (Some 2, - 2)"
  by (simp add: calculateScore_def calculateNodeInfectionReward_def neighbors_def successors_def
      ex_game_def ex_graph_def ex_message_def Let_def)

lemma ex_rewardsBefore: "rewardsBefore ex_game ex_message NO_SUSPICION = (Some 2, - 2)"
  by (simp add: rewardsBefore_def infectionPotential_spec_def outDegreePlusOne_spec_def
      successors_def ex_game_def ex_graph_def ex_message_def)

lemma ex_update:
  "updateNetwork (ex_game\<lparr>draws := draws ex_game + 1\<rparr>) ex_message NO_SUSPICION = Inr ex_delivered"
  by (simp add: updateNetwork_def infectNode_def isReachable_def neighbors_def successors_def
      ex_game_def ex_graph_def ex_message_def ex_delivered_def Let_def)

lemma ex_started_edge: "has_edge (graph ex_started) (origin ex_message) (destination ex_message)"
  by (simp add: has_edge_def ex_started_def ex_game_def ex_graph_def ex_message_def)

lemma ex_process:
  "processMessage ex_world ex_trafficInfo 2 n ex_started ex_message = Inr ex_after"
  unfolding processMessage_def Let_def ex_label
  by (simp add: ex_started_edge ex_not_skipped)
     (simp add: calculateScore_def calculateNodeInfectionReward_def updateNetwork_def
      infectNode_def isReachable_def neighbors_def successors_def ex_not_skipped
      ex_started_def ex_after_def ex_game_def ex_graph_def ex_message_def Let_def)

lemma ex_processed:
  "processQueues ex_world ex_trafficInfo 2 ex_started [[], [ex_message], []] = Inr ex_after"
  by (simp add: ex_process)

lemma ex_round: "playRound ex_world ex_game = Inr ex_after"
proof -
  have "ex_game\<lparr>roundNumber := roundNumber ex_game + 1,
                 attackerPoints := [(ex_trafficInfo, 3, Some 0)],
                 lastAttackerScore := Some 0\<rparr> = ex_started"
    by (simp add: ex_started_def ex_game_def)
  then show ?thesis
    by (simp add: playRound_def ex_queues ex_process del: One_nat_def)
qed

lemma ex_quarantine:
  "quarantineNode ex_game ''A'' ''B'' HIGH_SUSPICION = Inr ex_quarantined"
  using quarantineNode_HIGH [of "''A''" ex_game "''B''"]
  by (simp add: ex_game_def ex_graph_def ex_quarantined_def)

lemma ex_quiet_traffic:
  "generateBackgroundTraffic ex_quiet_world (ex_game\<lparr>roundNumber := k\<rparr>) = Inr [ex_benign]"
  by (simp add: generateBackgroundTraffic_def ex_quiet_world_def ex_world_def ex_game_def
      ex_graph_def rowIndex_results_def randint_def iloc_def Let_def choice_def list_set_def
      has_edge_def Message_def ex_benign_def ex_message_def)

lemma ex_quiet_features:
  "nodeFeatures (ex_game\<lparr>roundNumber := k\<rparr>) [ex_benign] =
     Inr ([(''A'', []), (''B'', [ex_benign]), (''C'', [])],
          [0, 1, 0], [False, True, False], [0, 2, 1])"
  by (simp add: nodeFeatures_def ex_game_def ex_graph_def ex_benign_def ex_message_def
      dict_get_def isReachable_def neighbors_def successors_def
      calculateNodeInfectionReward_def Let_def)

lemma ex_quiet_getAttack: "getAttack ex_quiet_world tf r sc infected g = (None, 2)"
  by (simp add: ex_quiet_world_def ex_world_def)

subsection \<open>The reachability flags\<close>

lemma reachableList_eq:
  "set (infectedNodes s) \<subseteq> set (nodes (graph s)) \<Longrightarrow>
   reachableList s ns =
     Inr (map (\<lambda>n. if n \<notin> set (infectedNodes s) \<and>
                         (\<exists>i \<in> set (infectedNodes s). has_edge (graph s) i n)
                      then 1 else 0) ns)"
  by (induction ns) (simp_all add: isReachable_eq)

lemma initializeNetwork_flags:
  assumes "initializeNetwork lines pick = Inr s"
  shows "reachableList s (nodes (graph s)) = Inr (reachableNodes s)"
proof -
  let ?gc = "foldl networkLine (\<lparr>nodes = [], edges = []\<rparr>, []) lines"
  from assms obtain infected r where
    r: "reachableList \<lparr>graph = fst ?gc, colorMap = snd ?gc, infectedNodes = infected,
          quarantinedNodes = [], reachableNodes = [], roundNumber = 0,
          lastAttackerScore = None, attackerPoints = [], defenderPoints = [], draws = 0\<rparr>
          (nodes (fst ?gc)) = Inr r"
    and s: "s = \<lparr>graph = fst ?gc, colorMap = snd ?gc, infectedNodes = infected,
          quarantinedNodes = [], reachableNodes = r, roundNumber = 0,
          lastAttackerScore = None, attackerPoints = [], defenderPoints = [], draws = 0\<rparr>"
    by (cases ?gc) (auto simp: initializeNetwork_def Let_def split: sum.splits)
  from initializeNetwork_wf [OF assms]
  have sub: "set (infectedNodes s) \<subseteq> set (nodes (graph s))" by (simp add: wf_game_def)
  then have sub': "set infected \<subseteq> set (nodes (fst ?gc))" by (simp add: s)
  from r show ?thesis
    using reachableList_eq [OF sub] reachableList_eq [of "s\<lparr>reachableNodes := []\<rparr>"] sub
    by (simp add: s)
qed

section \<open>The claims\<close>

subsection \<open>Reachability\<close>

text \<open>
  Claim C4. For every node, \<^verbatim>\<open>isReachable(node)\<close> returns true if and only if the node
  is not in \<^verbatim>\<open>infectedNodes\<close> and some infected node has an edge into it; an infected
  node is never reachable. The infected nodes are nodes of the graph, as they are in
  every state of a game (\<open>initializeNetwork_wf\<close>, \<open>playRound_ok\<close>); the answer for an
  infected node needs no such condition.
\<close>

theorem isReachable_iff:
  "(n \<in> set (infectedNodes s) \<longrightarrow> isReachable s n = Inr False) \<and>
   (set (infectedNodes s) \<subseteq> set (nodes (graph s)) \<longrightarrow>
      isReachable s n =
        Inr (n \<notin> set (infectedNodes s) \<and>
             (\<exists>i \<in> set (infectedNodes s). has_edge (graph s) i n)))"
proof (intro conjI impI)
  assume "n \<in> set (infectedNodes s)"
  then show "isReachable s n = Inr False"
    by (simp add: isReachable_def)
next
  assume "set (infectedNodes s) \<subseteq> set (nodes (graph s))"
  then show "isReachable s n =
        Inr (n \<notin> set (infectedNodes s) \<and>
             (\<exists>i \<in> set (infectedNodes s). has_edge (graph s) i n))"
    by (rule isReachable_eq)
qed

theorem isReachable_iff_witness:
  "set (infectedNodes ex_game) \<subseteq> set (nodes (graph ex_game)) \<and>
   isReachable ex_game ''A'' = Inr False \<and>
   isReachable ex_game ''B'' = Inr True \<and>
   isReachable ex_game ''C'' = Inr False"
  using isReachable_iff [where s = ex_game and n = "''A''"]
    isReachable_iff [where s = ex_game and n = "''B''"]
    isReachable_iff [where s = ex_game and n = "''C''"]
  by (simp add: ex_game_def ex_graph_def has_edge_def)

subsection \<open>Scores\<close>

text \<open>
  Claim C1. For every message and label, \<^verbatim>\<open>calculateScore\<close> returns the reward pair of
  the specification's table, with A the infection potential of the destination and D
  its out-degree plus one. The destination is a node of the graph, as the destination
  of every message the round scores is. The scores are computed before the message's
  quarantine or infection is applied: for a message whose edge is present,
  \<^verbatim>\<open>runGame\<close> records the table's rewards read on the state before \<^verbatim>\<open>updateNetwork\<close>, in
  the defender's training point (unless the inspection was skipped), in the attacker's
  training point and in \<^verbatim>\<open>lastAttackerScore\<close> (when the message is malicious).
\<close>

theorem calculateScore_table:
  "(destination m \<in> set (nodes (graph s)) \<longrightarrow>
      calculateNodeInfectionReward s (destination m) =
        Inr (infectionPotential_spec (graph s) (infectedNodes s) (destination m)) \<and>
      calculateScore s m lbl =
        Inr (rewardTable_spec
               (infectionPotential_spec (graph s) (infectedNodes s) (destination m))
               (outDegreePlusOne_spec (graph s) (destination m)) (malicious m) lbl)) \<and>
   (wf_game s \<and> has_edge (graph s) (origin m) (destination m) \<longrightarrow>
      (\<exists>s1. updateNetwork (s\<lparr>draws := draws s + 1\<rparr>) m (suspicionLabelOf w n s m) = Inr s1 \<and>
            processMessage w ti ai n s m =
              Inr (s1\<lparr>defenderPoints := defenderPoints s @
                         (if skippedInspection w n s then []
                          else [(m, suspicionLabelOf w n s m,
                                 snd (rewardsBefore s m (suspicionLabelOf w n s m)))]),
                       attackerPoints := attackerPoints s @
                         (if malicious m
                          then [(ti, ai, fst (rewardsBefore s m (suspicionLabelOf w n s m)))]
                          else []),
                       lastAttackerScore :=
                         (if malicious m then fst (rewardsBefore s m (suspicionLabelOf w n s m))
                          else lastAttackerScore s)\<rparr>)))"
proof (intro conjI impI)
  assume d: "destination m \<in> set (nodes (graph s))"
  show "calculateNodeInfectionReward s (destination m) =
        Inr (infectionPotential_spec (graph s) (infectedNodes s) (destination m))"
    using d by (rule calculateNodeInfectionReward_eq)
  show "calculateScore s m lbl =
        Inr (rewardTable_spec
               (infectionPotential_spec (graph s) (infectedNodes s) (destination m))
               (outDegreePlusOne_spec (graph s) (destination m)) (malicious m) lbl)"
    using calculateScore_eq [OF d] by (simp add: rewardsBefore_def)
next
  assume a: "wf_game s \<and> has_edge (graph s) (origin m) (destination m)"
  from processMessage_delivered [of s m w n ti ai] a
  show "\<exists>s1. updateNetwork (s\<lparr>draws := draws s + 1\<rparr>) m (suspicionLabelOf w n s m) = Inr s1 \<and>
            processMessage w ti ai n s m =
              Inr (s1\<lparr>defenderPoints := defenderPoints s @
                         (if skippedInspection w n s then []
                          else [(m, suspicionLabelOf w n s m,
                                 snd (rewardsBefore s m (suspicionLabelOf w n s m)))]),
                       attackerPoints := attackerPoints s @
                         (if malicious m
                          then [(ti, ai, fst (rewardsBefore s m (suspicionLabelOf w n s m)))]
                          else []),
                       lastAttackerScore :=
                         (if malicious m then fst (rewardsBefore s m (suspicionLabelOf w n s m))
                          else lastAttackerScore s)\<rparr>)"
    by blast
qed

text \<open>
  In the three-node game the malicious message from A to B, labelled with no
  suspicion, scores 2 for the attacker (B and its uninfected neighbour C) and -2 for
  the defender; the update then infects B, whose potential drops to 0, and the
  recorded reward is still 2.
\<close>

theorem calculateScore_table_witness:
  "destination ex_message \<in> set (nodes (graph ex_game)) \<and>
   calculateNodeInfectionReward ex_game (destination ex_message) = Inr 2 \<and>
   calculateScore ex_game ex_message NO_SUSPICION = Inr (Some 2, - 2) \<and>
   wf_game ex_game \<and>
   has_edge (graph ex_game) (origin ex_message) (destination ex_message) \<and>
   updateNetwork (ex_game\<lparr>draws := draws ex_game + 1\<rparr>) ex_message NO_SUSPICION = Inr ex_delivered \<and>
   processMessage ex_world ex_trafficInfo 2 1 ex_game ex_message =
     Inr (ex_delivered\<lparr>defenderPoints := [(ex_message, NO_SUSPICION, - 2)],
                       attackerPoints := [(ex_trafficInfo, 2, Some 2)],
                       lastAttackerScore := Some 2\<rparr>) \<and>
   calculateNodeInfectionReward ex_delivered (destination ex_message) = Inr 0"
proof -
  have d: "destination ex_message \<in> set (nodes (graph ex_game))"
    by (simp add: ex_message_def ex_game_def ex_graph_def)
  have pot: "infectionPotential_spec (graph ex_game) (infectedNodes ex_game) (destination ex_message) = 2"
    and deg: "outDegreePlusOne_spec (graph ex_game) (destination ex_message) = 2"
    by (simp_all add: infectionPotential_spec_def outDegreePlusOne_spec_def successors_def
        ex_message_def ex_game_def ex_graph_def)
  have mal: "malicious ex_message" by (simp add: ex_message_def)
  have logs: "defenderPoints ex_game = []" "attackerPoints ex_game = []"
    by (simp_all add: ex_game_def)
  note t = calculateScore_table [where s = ex_game and m = ex_message and lbl = NO_SUSPICION
      and w = ex_world and n = 1 and ti = ex_trafficInfo and ai = 2]
  from t d have "calculateNodeInfectionReward ex_game (destination ex_message) = Inr 2"
    and "calculateScore ex_game ex_message NO_SUSPICION = Inr (Some 2, - 2)"
    by (simp_all add: pot deg mal)
  moreover from ex_update t ex_wf ex_edge
  have "processMessage ex_world ex_trafficInfo 2 1 ex_game ex_message =
     Inr (ex_delivered\<lparr>defenderPoints := [(ex_message, NO_SUSPICION, - 2)],
                       attackerPoints := [(ex_trafficInfo, 2, Some 2)],
                       lastAttackerScore := Some 2\<rparr>)"
    by (simp add: ex_label ex_not_skipped ex_rewardsBefore mal logs)
  moreover have "calculateNodeInfectionReward ex_delivered (destination ex_message) = Inr 0"
    by (simp add: calculateNodeInfectionReward_def ex_delivered_def ex_message_def)
  ultimately show ?thesis using d ex_wf ex_edge ex_update by simp
qed

subsection \<open>Quarantine\<close>

text \<open>
  Claim C2, as amended. For every origin present in the graph, quarantine at the high
  label removes all outgoing edges of the origin (afterwards it has none), leaves the
  edges of every other node in place and adds the origin to \<^verbatim>\<open>quarantinedNodes\<close> if it
  is not there. Quarantine at the medium label, when the edge from origin to destination
  is in the graph, removes exactly that edge and leaves every other edge in place; when
  the edge is not in the graph the call raises \<^verbatim>\<open>NetworkXError\<close>.
\<close>

theorem quarantineNode_effect:
  "(u \<in> set (nodes (graph s)) \<longrightarrow>
      (\<exists>s'. quarantineNode s u d HIGH_SUSPICION = Inr s' \<and>
            successors (graph s') u = [] \<and>
            (\<forall>a b. a \<noteq> u \<longrightarrow> has_edge (graph s') a b = has_edge (graph s) a b) \<and>
            quarantinedNodes s' =
              (if u \<in> set (quarantinedNodes s) then quarantinedNodes s
               else quarantinedNodes s @ [u]))) \<and>
   (has_edge (graph s) u d \<longrightarrow>
      (\<exists>s'. quarantineNode s u d MEDIUM_SUSPICION = Inr s' \<and>
            \<not> has_edge (graph s') u d \<and>
            (\<forall>a b. (a, b) \<noteq> (u, d) \<longrightarrow> has_edge (graph s') a b = has_edge (graph s) a b) \<and>
            quarantinedNodes s' = quarantinedNodes s)) \<and>
   (\<not> has_edge (graph s) u d \<longrightarrow>
      quarantineNode s u d MEDIUM_SUSPICION = Inl NetworkXError)"
proof (intro conjI impI)
  assume u: "u \<in> set (nodes (graph s))"
  show "\<exists>s'. quarantineNode s u d HIGH_SUSPICION = Inr s' \<and>
            successors (graph s') u = [] \<and>
            (\<forall>a b. a \<noteq> u \<longrightarrow> has_edge (graph s') a b = has_edge (graph s) a b) \<and>
            quarantinedNodes s' =
              (if u \<in> set (quarantinedNodes s) then quarantinedNodes s
               else quarantinedNodes s @ [u])"
    unfolding quarantineNode_HIGH [OF u]
    by (auto simp: successors_def has_edge_def filter_empty_conv)
next
  assume e: "has_edge (graph s) u d"
  show "\<exists>s'. quarantineNode s u d MEDIUM_SUSPICION = Inr s' \<and>
            \<not> has_edge (graph s') u d \<and>
            (\<forall>a b. (a, b) \<noteq> (u, d) \<longrightarrow> has_edge (graph s') a b = has_edge (graph s) a b) \<and>
            quarantinedNodes s' = quarantinedNodes s"
    using e by (auto simp: quarantineNode_MEDIUM has_edge_def)
next
  assume "\<not> has_edge (graph s) u d"
  then show "quarantineNode s u d MEDIUM_SUSPICION = Inl NetworkXError"
    by (simp add: quarantineNode_MEDIUM)
qed

theorem quarantineNode_effect_witness:
  "''A'' \<in> set (nodes (graph ex_fan)) \<and>
   has_edge (graph ex_fan) ''A'' ''B'' \<and>
   quarantineNode ex_fan ''A'' ''B'' HIGH_SUSPICION =
     Inr (ex_fan\<lparr>quarantinedNodes := [''A''],
                 graph := \<lparr>nodes = [''A'', ''B'', ''C''], edges = [(''B'', ''C'')]\<rparr>\<rparr>) \<and>
   (\<exists>s'. quarantineNode ex_fan ''A'' ''B'' HIGH_SUSPICION = Inr s' \<and>
         successors (graph s') ''A'' = [] \<and> quarantinedNodes s' = [''A'']) \<and>
   quarantineNode ex_fan ''A'' ''B'' MEDIUM_SUSPICION =
     Inr (ex_fan\<lparr>graph := \<lparr>nodes = [''A'', ''B'', ''C''],
                          edges = [(''A'', ''C''), (''B'', ''C'')]\<rparr>\<rparr>) \<and>
   (\<exists>s'. quarantineNode ex_fan ''A'' ''B'' MEDIUM_SUSPICION = Inr s' \<and>
         \<not> has_edge (graph s') ''A'' ''B'' \<and> has_edge (graph s') ''A'' ''C'' \<and>
         quarantinedNodes s' = []) \<and>
   quarantineNode ex_fan ''B'' ''A'' MEDIUM_SUSPICION = Inl NetworkXError"
proof -
  have u: "''A'' \<in> set (nodes (graph ex_fan))"
    and e: "has_edge (graph ex_fan) ''A'' ''B''"
    and c: "has_edge (graph ex_fan) ''A'' ''C''"
    and ne: "\<not> has_edge (graph ex_fan) ''B'' ''A''"
    and q: "quarantinedNodes ex_fan = []"
    by (simp_all add: ex_fan_def ex_game_def has_edge_def)
  have high: "quarantineNode ex_fan ''A'' ''B'' HIGH_SUSPICION =
     Inr (ex_fan\<lparr>quarantinedNodes := [''A''],
                 graph := \<lparr>nodes = [''A'', ''B'', ''C''], edges = [(''B'', ''C'')]\<rparr>\<rparr>)"
    by (simp add: quarantineNode_HIGH [OF u]) (simp add: ex_fan_def ex_game_def)
  have medium: "quarantineNode ex_fan ''A'' ''B'' MEDIUM_SUSPICION =
     Inr (ex_fan\<lparr>graph := \<lparr>nodes = [''A'', ''B'', ''C''],
                          edges = [(''A'', ''C''), (''B'', ''C'')]\<rparr>\<rparr>)"
    by (simp add: quarantineNode_MEDIUM e) (simp add: ex_fan_def ex_game_def)
  note t = quarantineNode_effect [where s = ex_fan and u = "''A''" and d = "''B''"]
  from t u q have "\<exists>s'. quarantineNode ex_fan ''A'' ''B'' HIGH_SUSPICION = Inr s' \<and>
         successors (graph s') ''A'' = [] \<and> quarantinedNodes s' = [''A'']"
    by auto
  moreover from t e c q have "\<exists>s'. quarantineNode ex_fan ''A'' ''B'' MEDIUM_SUSPICION = Inr s' \<and>
         \<not> has_edge (graph s') ''A'' ''B'' \<and> has_edge (graph s') ''A'' ''C'' \<and>
         quarantinedNodes s' = []"
    by auto
  moreover from quarantineNode_effect [where s = ex_fan and u = "''B''" and d = "''A''"] ne
  have "quarantineNode ex_fan ''B'' ''A'' MEDIUM_SUSPICION = Inl NetworkXError"
    by simp
  ultimately show ?thesis using u e high medium by simp
qed

text \<open>
  Claim C2 as stated fails: B and A are both nodes of the graph, there is no edge from
  B to A, and the quarantine at the medium label raises instead of returning a graph.
\<close>

theorem quarantineNode_medium_counterexample:
  "''B'' \<in> set (nodes (graph ex_fan)) \<and> ''A'' \<in> set (nodes (graph ex_fan)) \<and>
   quarantineNode ex_fan ''B'' ''A'' MEDIUM_SUSPICION = Inl NetworkXError"
  by (simp add: quarantineNode_def remove_edge_def ex_fan_def ex_game_def)

text \<open>
  Claim C7, as amended. Quarantine at the high label on a node of the graph whose
  outgoing edges were already removed completes without an error and leaves the graph
  unchanged. Quarantine at the medium label on an edge that is not in the graph is not
  a no-op: \<^verbatim>\<open>quarantineNode\<close> raises \<^verbatim>\<open>NetworkXError\<close>. The round never gets there: it
  drops a message whose edge is gone before inspection, scoring and quarantine, and on
  a state whose edges and infected nodes are within the graph the processing of the
  queues of a round completes without an error.
\<close>

theorem quarantine_absent_edge:
  "(u \<in> set (nodes (graph s)) \<and> successors (graph s) u = [] \<longrightarrow>
      (\<exists>s'. quarantineNode s u d HIGH_SUSPICION = Inr s' \<and> graph s' = graph s)) \<and>
   (\<not> has_edge (graph s) (origin m) (destination m) \<longrightarrow>
      quarantineNode s (origin m) (destination m) MEDIUM_SUSPICION = Inl NetworkXError \<and>
      processMessage w ti ai n s m = Inr s) \<and>
   (wf_game s \<longrightarrow> (\<exists>s'. processQueues w ti ai s queues = Inr s'))"
proof (intro conjI impI)
  assume a: "u \<in> set (nodes (graph s)) \<and> successors (graph s) u = []"
  then have u: "u \<in> set (nodes (graph s))" and none: "successors (graph s) u = []"
    by simp_all
  from none have "filter (\<lambda>e. fst e \<noteq> u) (edges (graph s)) = edges (graph s)"
    by (auto simp: successors_def filter_empty_conv filter_id_conv)
  then show "\<exists>s'. quarantineNode s u d HIGH_SUSPICION = Inr s' \<and> graph s' = graph s"
    by (simp add: quarantineNode_HIGH [OF u])
next
  assume "\<not> has_edge (graph s) (origin m) (destination m)"
  then show "quarantineNode s (origin m) (destination m) MEDIUM_SUSPICION = Inl NetworkXError"
    and "processMessage w ti ai n s m = Inr s"
    by (simp_all add: quarantineNode_MEDIUM processMessage_dropped)
next
  assume "wf_game s"
  from processQueues_points [OF this, of w ti ai queues]
  show "\<exists>s'. processQueues w ti ai s queues = Inr s'" by blast
qed

theorem quarantine_absent_edge_witness:
  "''A'' \<in> set (nodes (graph ex_quarantined)) \<and>
   successors (graph ex_quarantined) ''A'' = [] \<and>
   quarantineNode ex_quarantined ''A'' ''B'' HIGH_SUSPICION = Inr ex_quarantined \<and>
   \<not> has_edge (graph ex_quarantined) (origin ex_message) (destination ex_message) \<and>
   quarantineNode ex_quarantined (origin ex_message) (destination ex_message) MEDIUM_SUSPICION =
     Inl NetworkXError \<and>
   processMessage ex_world ex_trafficInfo 2 1 ex_quarantined ex_message = Inr ex_quarantined \<and>
   wf_game ex_quarantined \<and>
   processQueues ex_world ex_trafficInfo 2 ex_quarantined [[], [ex_message], []] =
     Inr ex_quarantined"
proof -
  have u: "''A'' \<in> set (nodes (graph ex_quarantined))"
    and none: "successors (graph ex_quarantined) ''A'' = []"
    and ne: "\<not> has_edge (graph ex_quarantined) (origin ex_message) (destination ex_message)"
    and wf: "wf_game ex_quarantined"
    by (simp_all add: ex_quarantined_def ex_game_def ex_message_def successors_def has_edge_def
        wf_game_def wf_graph_def)
  note t = quarantine_absent_edge [where s = ex_quarantined and u = "''A''" and d = "''B''"
      and m = ex_message and w = ex_world and ti = ex_trafficInfo and ai = 2 and n = 1
      and queues = "[[], [ex_message], []]"]
  from t ne have m: "quarantineNode ex_quarantined (origin ex_message) (destination ex_message)
      MEDIUM_SUSPICION = Inl NetworkXError"
    and p: "processMessage ex_world ex_trafficInfo 2 1 ex_quarantined ex_message = Inr ex_quarantined"
    by simp_all
  have h: "quarantineNode ex_quarantined ''A'' ''B'' HIGH_SUSPICION = Inr ex_quarantined"
    by (simp add: quarantineNode_HIGH [OF u]) (simp add: ex_quarantined_def ex_game_def)
  have "processQueues ex_world ex_trafficInfo 2 ex_quarantined [[], [ex_message], []] =
     Inr ex_quarantined"
    using p by simp
  with u none ne wf m p h show ?thesis by simp
qed

text \<open>
  Claim C7 as stated fails: after the quarantine of A at the high label the edge from
  A to B no longer exists, and a quarantine of that edge at the medium label raises.
\<close>

theorem quarantine_absent_edge_counterexample:
  "quarantineNode ex_game ''A'' ''B'' HIGH_SUSPICION = Inr ex_quarantined \<and>
   quarantineNode ex_quarantined ''A'' ''B'' MEDIUM_SUSPICION = Inl NetworkXError"
  by (simp add: ex_quarantine)
     (simp add: quarantineNode_def remove_edge_def ex_quarantined_def ex_game_def)

subsection \<open>The state only grows\<close>

text \<open>
  Claim C3. Across every operation of a game (infection, quarantine, the network
  update of a message, the processing of a message, a round, and a game of any number
  of rounds) no node leaves \<^verbatim>\<open>infectedNodes\<close>, no node leaves \<^verbatim>\<open>quarantinedNodes\<close>, and
  the graph gains no edge; infecting a node twice is the same as infecting it once.
\<close>

theorem state_monotone:
  "infectNode (infectNode s d) d = infectNode s d \<and>
   (s' = infectNode s d \<or> quarantineNode s u d lbl = Inr s' \<or>
    updateNetwork s m lbl = Inr s' \<or> processMessage w ti ai n s m = Inr s' \<or>
    playRound w s = Inr s' \<or> runGame ws fuel s = Some (Inr s') \<longrightarrow>
      set (infectedNodes s) \<subseteq> set (infectedNodes s') \<and>
      set (quarantinedNodes s) \<subseteq> set (quarantinedNodes s') \<and>
      set (edges (graph s')) \<subseteq> set (edges (graph s)))"
proof (intro conjI impI)
  show "infectNode (infectNode s d) d = infectNode s d"
    by (simp add: infectNode_def)
next
  assume "s' = infectNode s d \<or> quarantineNode s u d lbl = Inr s' \<or>
    updateNetwork s m lbl = Inr s' \<or> processMessage w ti ai n s m = Inr s' \<or>
    playRound w s = Inr s' \<or> runGame ws fuel s = Some (Inr s')"
  then have e: "evolves s s'"
    using infectNode_evolves [of s d] quarantineNode_evolves [of s u d lbl s']
      updateNetwork_evolves [of s m lbl s'] processMessage_evolves [of w ti ai n s m s']
      playRound_evolves [of w s s'] runGame_evolves [of ws fuel s s']
    by blast
  from e show "set (infectedNodes s) \<subseteq> set (infectedNodes s')" by (simp add: evolves_def)
  from e show "set (quarantinedNodes s) \<subseteq> set (quarantinedNodes s')" by (simp add: evolves_def)
  from e show "set (edges (graph s')) \<subseteq> set (edges (graph s))" by (simp add: evolves_def)
qed

theorem state_monotone_witness:
  "playRound ex_world ex_game = Inr ex_after \<and>
   infectedNodes ex_game = [''A''] \<and> infectedNodes ex_after = [''A'', ''B''] \<and>
   set (infectedNodes ex_game) \<subseteq> set (infectedNodes ex_after) \<and>
   set (quarantinedNodes ex_game) \<subseteq> set (quarantinedNodes ex_after) \<and>
   set (edges (graph ex_after)) \<subseteq> set (edges (graph ex_game)) \<and>
   quarantineNode ex_game ''A'' ''B'' HIGH_SUSPICION = Inr ex_quarantined \<and>
   set (quarantinedNodes ex_game) \<subseteq> set (quarantinedNodes ex_quarantined) \<and>
   set (edges (graph ex_quarantined)) \<subseteq> set (edges (graph ex_game)) \<and>
   edges (graph ex_quarantined) = [(''B'', ''C'')]"
proof -
  from state_monotone [where s = ex_game and s' = ex_after and w = ex_world] ex_round
  have "set (infectedNodes ex_game) \<subseteq> set (infectedNodes ex_after) \<and>
      set (quarantinedNodes ex_game) \<subseteq> set (quarantinedNodes ex_after) \<and>
      set (edges (graph ex_after)) \<subseteq> set (edges (graph ex_game))"
    by blast
  moreover
  from state_monotone [where s = ex_game and s' = ex_quarantined and u = "''A''"
      and d = "''B''" and lbl = HIGH_SUSPICION] ex_quarantine
  have "set (quarantinedNodes ex_game) \<subseteq> set (quarantinedNodes ex_quarantined) \<and>
      set (edges (graph ex_quarantined)) \<subseteq> set (edges (graph ex_game))"
    by blast
  moreover have "infectedNodes ex_game = [''A'']" "infectedNodes ex_after = [''A'', ''B'']"
    "edges (graph ex_quarantined) = [(''B'', ''C'')]"
    by (simp_all add: ex_game_def ex_after_def ex_quarantined_def)
  ultimately show ?thesis using ex_round ex_quarantine by simp
qed

subsection \<open>The random draws of the traffic\<close>

text \<open>
  Claim C5. The position of the attack message is drawn by
  \<^verbatim>\<open>random.randint(0, len(queue) + 1)\<close>, whose upper end is included: the equally likely
  results are the integers from 0 to the queue length plus one, and the last two of
  them both put the message at the very end. On a queue of one message b the three
  results give the queues [a, b], [b, a] and [b, a]: the end is twice as likely as the
  front, so the position is not uniform over the range from 0 to the queue length.
\<close>

theorem attack_position_results:
  "position_results queue = [0 .. int (length queue) + 1] \<and>
   length (position_results queue) = length queue + 2 \<and>
   list_insert queue (int (length queue)) a = queue @ [a] \<and>
   list_insert queue (int (length queue) + 1) a = queue @ [a] \<and>
   map (\<lambda>p. list_insert [b] p a) (position_results [b]) = [[a, b], [b, a], [b, a]]"
proof -
  have "position_results [b] = [0, 1, 2]"
    by (simp add: position_results_def randint_def upto.simps)
  then have "map (\<lambda>p. list_insert [b] p a) (position_results [b]) = [[a, b], [b, a], [b, a]]"
    by (simp add: list_insert_def)
  moreover have "list_insert queue (int (length queue) + 1) a = queue @ [a]"
    by (simp add: list_insert_def)
  ultimately show ?thesis
    by (simp add: position_results_def randint_def list_insert_def)
qed

text \<open>
  Claim C6. The row of each background message is drawn by
  \<^verbatim>\<open>random.randint(1, datasetLength - 1)\<close>: index 0 is never a result, so the first record
  of the dataset is never the template of a message. With two records every draw is
  the second one, and with one record \<^verbatim>\<open>randint(1, 0)\<close> has no result and raises
  \<^verbatim>\<open>ValueError\<close>. The number of messages is drawn from 1 to 30.
\<close>

theorem first_record_never_drawn:
  "0 \<notin> set (rowIndex_results ds) \<and>
   rowIndex_results [r0, r1] = [1] \<and>
   iloc [r0, r1] 0 = Inr r0 \<and>
   iloc [r0, r1] 1 = Inr r1 \<and>
   rowIndex_results [r0] = [] \<and>
   generateBackgroundTraffic (w\<lparr>dataset := [row0]\<rparr>) s = Inl ValueError \<and>
   numMessages_results = [1 .. 30]"
proof -
  have "rowIndex_results [r0, r1] = [1]"
    by (simp add: rowIndex_results_def randint_def upto.simps)
  moreover have "generateBackgroundTraffic (w\<lparr>dataset := [row0]\<rparr>) s = Inl ValueError"
    by (simp add: generateBackgroundTraffic_def rowIndex_results_def randint_def)
  ultimately show ?thesis
    by (simp add: rowIndex_results_def randint_def iloc_def numMessages_results_def
        MAX_BACKGROUND_TRAFFIC_MESSAGES_def)
qed

subsection \<open>The attacker's training points\<close>

text \<open>
  Claim C9, as amended. In every round where the attacker returns no attack message,
  \<^verbatim>\<open>generateTrafficQueues\<close> records exactly one training point for the attacker: reward
  zero, tagged with the last index of the attacker's action space
  (\<^verbatim>\<open>OUTPUT_SIZE - 1\<close>). It is the first attacker point of the round. The processing
  of the queues then adds one point, tagged with the action index the attacker
  returned, for each delivered malicious background message; so the zero-reward point is the only
  one of the round when no background message is malicious.
\<close>

theorem no_attack_round_samples:
  assumes "wf_game s"
    and "generateBackgroundTraffic w (s\<lparr>roundNumber := roundNumber s + 1\<rparr>) = Inr traffic"
    and "nodeFeatures (s\<lparr>roundNumber := roundNumber s + 1\<rparr>) traffic = Inr (Q, tf, r, sc)"
    and "getAttack w tf r sc (infectedNodes s) (graph s) = (None, ai)"
    and "ti = trafficInfoOf tf r sc"
    and "noop = (ti, OUTPUT_SIZE w - 1, Some 0)"
    and "started = s\<lparr>roundNumber := roundNumber s + 1,
                      attackerPoints := attackerPoints s @ [noop],
                      lastAttackerScore := Some 0\<rparr>"
  shows "generateTrafficQueues w (s\<lparr>roundNumber := roundNumber s + 1\<rparr>) =
           Inr (s\<lparr>roundNumber := roundNumber s + 1,
                   attackerPoints := attackerPoints s @ [noop]\<rparr>, Q, ti, ai) \<and>
         (\<exists>s' new. playRound w s = Inr s' \<and>
            attackerPoints s' = attackerPoints s @ noop # new \<and>
            sampleTags new =
              map (\<lambda>m. (ti, ai)) (filter malicious (deliveredQueues w ti ai started (map snd Q))) \<and>
            ((\<forall>m \<in> set traffic. \<not> malicious m) \<longrightarrow> new = []))"
proof -
  let ?s0 = "s\<lparr>roundNumber := roundNumber s + 1\<rparr>"
  have g: "generateTrafficQueues w ?s0 =
           Inr (s\<lparr>roundNumber := roundNumber s + 1,
                   attackerPoints := attackerPoints s @ [noop]\<rparr>, Q, ti, ai)"
    using generateTrafficQueues_none [of w ?s0 traffic Q tf r sc ai] assms(2-6) by simp
  have wf: "wf_game started" using assms(1,7) by (simp add: wf_game_def)
  from processQueues_points [OF wf, of w ti ai "map snd Q"] obtain s' new where
    p: "processQueues w ti ai started (map snd Q) = Inr s'"
    and a: "attackerPoints s' = attackerPoints started @ new"
    and t: "sampleTags new =
              map (\<lambda>m. (ti, ai)) (filter malicious (deliveredQueues w ti ai started (map snd Q)))"
    by blast
  have round: "playRound w s = Inr s'"
    using g p assms(7) by (simp add: playRound_def)
  have points: "attackerPoints s' = attackerPoints s @ noop # new"
    using a assms(7) by simp
  have quiet: "new = []" if "\<forall>m \<in> set traffic. \<not> malicious m"
  proof -
    have "set (deliveredQueues w ti ai started (map snd Q)) \<subseteq> set traffic"
      using deliveredQueues_subset [of w ti ai started "map snd Q"]
        nodeFeatures_queues [OF assms(3)] by blast
    with that have "filter malicious (deliveredQueues w ti ai started (map snd Q)) = []"
      by (auto simp: filter_empty_conv)
    with t show ?thesis by (simp add: sampleTags_def)
  qed
  from g round points t quiet show ?thesis by blast
qed

text \<open>
  In the three-node game with a dataset that is benign throughout, the attacker
  returns no attack message and the round records the zero-reward point alone.
\<close>

theorem no_attack_round_samples_witness:
  "wf_game ex_game \<and>
   generateBackgroundTraffic ex_quiet_world (ex_game\<lparr>roundNumber := roundNumber ex_game + 1\<rparr>) =
     Inr [ex_benign] \<and>
   nodeFeatures (ex_game\<lparr>roundNumber := roundNumber ex_game + 1\<rparr>) [ex_benign] =
     Inr ([(''A'', []), (''B'', [ex_benign]), (''C'', [])],
          [0, 1, 0], [False, True, False], [0, 2, 1]) \<and>
   getAttack ex_quiet_world [0, 1, 0] [False, True, False] [0, 2, 1]
     (infectedNodes ex_game) (graph ex_game) = (None, 2) \<and>
   OUTPUT_SIZE ex_quiet_world - 1 = 3 \<and>
   (\<exists>s'. playRound ex_quiet_world ex_game = Inr s' \<and>
         attackerPoints s' = [(ex_trafficInfo, 3, Some 0)])"
proof -
  have out: "OUTPUT_SIZE ex_quiet_world - 1 = 3"
    by (simp add: ex_quiet_world_def ex_world_def)
  have ti: "ex_trafficInfo = trafficInfoOf [0, 1, 0] [False, True, False] [0, 2, 1]"
    by (simp add: ex_trafficInfo_def trafficInfoOf_def)
  have benign: "\<forall>m \<in> set [ex_benign]. \<not> malicious m"
    by (simp add: ex_benign_def)
  have none: "attackerPoints ex_game = []" by (simp add: ex_game_def)
  from no_attack_round_samples [OF ex_wf ex_quiet_traffic ex_quiet_features ex_quiet_getAttack
      ti refl refl]
  obtain s' new where "playRound ex_quiet_world ex_game = Inr s'"
    and "attackerPoints s' =
           attackerPoints ex_game @ (ex_trafficInfo, OUTPUT_SIZE ex_quiet_world - 1, Some 0) # new"
    and "(\<forall>m \<in> set [ex_benign]. \<not> malicious m) \<longrightarrow> new = []"
    by blast
  with benign out none have "\<exists>s'. playRound ex_quiet_world ex_game = Inr s' \<and>
         attackerPoints s' = [(ex_trafficInfo, 3, Some 0)]"
    by auto
  with ex_wf ex_quiet_traffic ex_quiet_features ex_quiet_getAttack out show ?thesis
    by blast
qed

text \<open>
  Claim C9 as stated fails: in the round of \<open>ex_world\<close> the attacker returns no attack
  message, the one background message is malicious and is delivered, and the round
  records two training points for the attacker.
\<close>

theorem no_attack_round_counterexample:
  "getAttack ex_world [0, 1, 0] [False, True, False] [0, 2, 1]
     (infectedNodes ex_game) (graph ex_game) = (None, 2) \<and>
   playRound ex_world ex_game = Inr ex_after \<and>
   attackerPoints ex_game = [] \<and>
   attackerPoints ex_after = [(ex_trafficInfo, 3, Some 0), (ex_trafficInfo, 2, Some 2)]"
  by (simp add: ex_round ex_getAttack) (simp add: ex_game_def ex_after_def)

text \<open>
  Claim C10. In the processing of a round every delivered message whose malicious flag is
  set records a training point (\<^verbatim>\<open>trafficInfo\<close>, \<^verbatim>\<open>attackIndex\<close>, attacker's reward) for the
  attacker and overwrites \<^verbatim>\<open>lastAttackerScore\<close> with that reward, whoever sent the
  message: a malicious background message does so as the attack message does. Every
  point is tagged with the one action index the attacker returned for the round; a
  message that is dropped or not malicious records none.
\<close>

theorem malicious_message_trains_attacker:
  "(wf_game s \<and> has_edge (graph s) (origin m) (destination m) \<and> malicious m \<longrightarrow>
      (\<exists>s'. processMessage w ti ai n s m = Inr s' \<and>
            attackerPoints s' =
              attackerPoints s @ [(ti, ai, fst (rewardsBefore s m (suspicionLabelOf w n s m)))] \<and>
            lastAttackerScore s' = fst (rewardsBefore s m (suspicionLabelOf w n s m)))) \<and>
   (wf_game s \<and> \<not> (has_edge (graph s) (origin m) (destination m) \<and> malicious m) \<longrightarrow>
      (\<exists>s'. processMessage w ti ai n s m = Inr s' \<and>
            attackerPoints s' = attackerPoints s \<and>
            lastAttackerScore s' = lastAttackerScore s)) \<and>
   (wf_game s \<longrightarrow>
      (\<exists>s' new. processQueues w ti ai s queues = Inr s' \<and>
            attackerPoints s' = attackerPoints s @ new \<and>
            sampleTags new =
              map (\<lambda>m. (ti, ai)) (filter malicious (deliveredQueues w ti ai s queues)) \<and>
            lastAttackerScore s' = lastScore (lastAttackerScore s) new)) \<and>
   (wf_game s \<and>
    generateTrafficQueues w (s\<lparr>roundNumber := roundNumber s + 1\<rparr>) = Inr (s1, Q, ti, ai) \<longrightarrow>
      (\<exists>traffic Q0 tf r sc.
            nodeFeatures (s\<lparr>roundNumber := roundNumber s + 1\<rparr>) traffic = Inr (Q0, tf, r, sc) \<and>
            ai = snd (getAttack w tf r sc (infectedNodes s) (graph s)) \<and>
            ti = trafficInfoOf tf r sc) \<and>
      (\<exists>s' new. playRound w s = Inr s' \<and>
            attackerPoints s' = attackerPoints s1 @ new \<and>
            sampleTags new =
              map (\<lambda>m. (ti, ai))
                (filter malicious
                   (deliveredQueues w ti ai (s1\<lparr>lastAttackerScore := Some 0\<rparr>) (map snd Q))) \<and>
            lastAttackerScore s' = lastScore (Some 0) new))"
proof (intro conjI impI)
  assume a: "wf_game s \<and> has_edge (graph s) (origin m) (destination m) \<and> malicious m"
  from processMessage_points [of s w ti ai n m] a
  show "\<exists>s'. processMessage w ti ai n s m = Inr s' \<and>
            attackerPoints s' =
              attackerPoints s @ [(ti, ai, fst (rewardsBefore s m (suspicionLabelOf w n s m)))] \<and>
            lastAttackerScore s' = fst (rewardsBefore s m (suspicionLabelOf w n s m))"
    by (auto simp: lastScore_def)
next
  assume a: "wf_game s \<and> \<not> (has_edge (graph s) (origin m) (destination m) \<and> malicious m)"
  from processMessage_points [of s w ti ai n m] a
  show "\<exists>s'. processMessage w ti ai n s m = Inr s' \<and>
            attackerPoints s' = attackerPoints s \<and>
            lastAttackerScore s' = lastAttackerScore s"
    by (auto simp: lastScore_def)
next
  assume "wf_game s"
  from processQueues_points [OF this, of w ti ai queues]
  show "\<exists>s' new. processQueues w ti ai s queues = Inr s' \<and>
            attackerPoints s' = attackerPoints s @ new \<and>
            sampleTags new =
              map (\<lambda>m. (ti, ai)) (filter malicious (deliveredQueues w ti ai s queues)) \<and>
            lastAttackerScore s' = lastScore (lastAttackerScore s) new"
    by blast
next
  assume a: "wf_game s \<and>
    generateTrafficQueues w (s\<lparr>roundNumber := roundNumber s + 1\<rparr>) = Inr (s1, Q, ti, ai)"
  then have g: "generateTrafficQueues w (s\<lparr>roundNumber := roundNumber s + 1\<rparr>) = Inr (s1, Q, ti, ai)"
    by simp
  from generateTrafficQueues_index [OF g]
  show "\<exists>traffic Q0 tf r sc.
            nodeFeatures (s\<lparr>roundNumber := roundNumber s + 1\<rparr>) traffic = Inr (Q0, tf, r, sc) \<and>
            ai = snd (getAttack w tf r sc (infectedNodes s) (graph s)) \<and>
            ti = trafficInfoOf tf r sc"
    by simp
next
  assume a: "wf_game s \<and>
    generateTrafficQueues w (s\<lparr>roundNumber := roundNumber s + 1\<rparr>) = Inr (s1, Q, ti, ai)"
  then have wf: "wf_game s"
    and g: "generateTrafficQueues w (s\<lparr>roundNumber := roundNumber s + 1\<rparr>) = Inr (s1, Q, ti, ai)"
    by simp_all
  from generateTrafficQueues_state [OF g] wf have "wf_game (s1\<lparr>lastAttackerScore := Some 0\<rparr>)"
    by (auto simp: wf_game_def)
  from processQueues_points [OF this, of w ti ai "map snd Q"] g
  show "\<exists>s' new. playRound w s = Inr s' \<and>
            attackerPoints s' = attackerPoints s1 @ new \<and>
            sampleTags new =
              map (\<lambda>m. (ti, ai))
                (filter malicious
                   (deliveredQueues w ti ai (s1\<lparr>lastAttackerScore := Some 0\<rparr>) (map snd Q))) \<and>
            lastAttackerScore s' = lastScore (Some 0) new"
    by (auto simp: playRound_def)
qed

text \<open>
  In the round of \<open>ex_world\<close> the attacker sends nothing and returns action index 2;
  the malicious message is background traffic, and its delivery records the point
  (\<open>ex_trafficInfo\<close>, 2, 2) and sets \<^verbatim>\<open>lastAttackerScore\<close> to 2. The same message with its
  flag cleared records nothing.
\<close>

theorem malicious_message_trains_attacker_witness:
  "generateBackgroundTraffic ex_world (ex_game\<lparr>roundNumber := roundNumber ex_game + 1\<rparr>) =
     Inr [ex_message] \<and>
   getAttack ex_world [0, 1, 0] [False, True, False] [0, 2, 1]
     (infectedNodes ex_game) (graph ex_game) = (None, 2) \<and>
   wf_game ex_game \<and>
   generateTrafficQueues ex_world (ex_game\<lparr>roundNumber := roundNumber ex_game + 1\<rparr>) =
     Inr (ex_game\<lparr>roundNumber := roundNumber ex_game + 1,
                   attackerPoints := [(ex_trafficInfo, 3, Some 0)]\<rparr>,
          [(''A'', []), (''B'', [ex_message]), (''C'', [])], ex_trafficInfo, 2) \<and>
   playRound ex_world ex_game = Inr ex_after \<and>
   attackerPoints ex_after = [(ex_trafficInfo, 3, Some 0)] @ [(ex_trafficInfo, 2, Some 2)] \<and>
   lastAttackerScore ex_after = Some 2 \<and>
   wf_game ex_started \<and>
   has_edge (graph ex_started) (origin ex_message) (destination ex_message) \<and>
   malicious ex_message \<and>
   attackerPoints ex_started = [(ex_trafficInfo, 3, Some 0)] \<and>
   (\<exists>s'. processMessage ex_world ex_trafficInfo 2 1 ex_started ex_message = Inr s' \<and>
         attackerPoints s' = [(ex_trafficInfo, 3, Some 0), (ex_trafficInfo, 2, Some 2)] \<and>
         lastAttackerScore s' = Some 2) \<and>
   \<not> malicious ex_benign \<and>
   (\<exists>s'. processMessage ex_world ex_trafficInfo 2 1 ex_started ex_benign = Inr s' \<and>
         attackerPoints s' = [(ex_trafficInfo, 3, Some 0)] \<and>
         lastAttackerScore s' = Some 0) \<and>
   (\<exists>new. processQueues ex_world ex_trafficInfo 2 ex_started [[], [ex_message], []] =
           Inr ex_after \<and>
         attackerPoints ex_after = attackerPoints ex_started @ new \<and>
         sampleTags new = [(ex_trafficInfo, 2)]) \<and>
   (\<exists>new. attackerPoints ex_after = [(ex_trafficInfo, 3, Some 0)] @ new \<and>
         sampleTags new = [(ex_trafficInfo, 2)] \<and>
         lastAttackerScore ex_after = lastScore (Some 0) new)"
proof -
  have wf: "wf_game ex_started"
    using ex_wf by (simp add: wf_game_def ex_started_def)
  have mal: "malicious ex_message" and ben: "\<not> malicious ex_benign"
    by (simp_all add: ex_message_def ex_benign_def)
  have pts: "attackerPoints ex_started = [(ex_trafficInfo, 3, Some 0)]"
    and last: "lastAttackerScore ex_started = Some 0"
    by (simp_all add: ex_started_def)
  have after: "attackerPoints ex_after = [(ex_trafficInfo, 3, Some 0)] @ [(ex_trafficInfo, 2, Some 2)]"
    "lastAttackerScore ex_after = Some 2"
    by (simp_all add: ex_after_def)
  have rw: "rewardsBefore ex_started ex_message NO_SUSPICION = (Some 2, - 2)"
    using ex_rewardsBefore by (simp add: rewardsBefore_def ex_started_def)
  note t = malicious_message_trains_attacker [where s = ex_started and w = ex_world
      and ti = ex_trafficInfo and ai = 2 and n = 1 and queues = "[[], [ex_message], []]"
      and ?s1.0 = ex_started and Q = "[]"]
  from t [where m = ex_message] wf ex_started_edge mal
  have "\<exists>s'. processMessage ex_world ex_trafficInfo 2 1 ex_started ex_message = Inr s' \<and>
         attackerPoints s' =
           attackerPoints ex_started @
           [(ex_trafficInfo, 2,
             fst (rewardsBefore ex_started ex_message
                    (suspicionLabelOf ex_world 1 ex_started ex_message)))] \<and>
         lastAttackerScore s' =
           fst (rewardsBefore ex_started ex_message
                  (suspicionLabelOf ex_world 1 ex_started ex_message))"
    by blast
  then have one: "\<exists>s'. processMessage ex_world ex_trafficInfo 2 1 ex_started ex_message = Inr s' \<and>
         attackerPoints s' = [(ex_trafficInfo, 3, Some 0), (ex_trafficInfo, 2, Some 2)] \<and>
         lastAttackerScore s' = Some 2"
    by (simp add: ex_label rw pts)
  from t [where m = ex_benign] wf ben
  have "\<exists>s'. processMessage ex_world ex_trafficInfo 2 1 ex_started ex_benign = Inr s' \<and>
         attackerPoints s' = attackerPoints ex_started \<and>
         lastAttackerScore s' = lastAttackerScore ex_started"
    by blast
  then have two: "\<exists>s'. processMessage ex_world ex_trafficInfo 2 1 ex_started ex_benign = Inr s' \<and>
         attackerPoints s' = [(ex_trafficInfo, 3, Some 0)] \<and>
         lastAttackerScore s' = Some 0"
    by (simp add: pts last)
  have del: "deliveredQueues ex_world ex_trafficInfo 2 ex_started [[], [ex_message], []] =
      [ex_message]"
    by (simp add: ex_process ex_started_edge)
  from t [where m = ex_message] wf
  have "\<exists>s' new. processQueues ex_world ex_trafficInfo 2 ex_started [[], [ex_message], []] =
           Inr s' \<and>
         attackerPoints s' = attackerPoints ex_started @ new \<and>
         sampleTags new =
           map (\<lambda>m. (ex_trafficInfo, 2))
             (filter malicious
                (deliveredQueues ex_world ex_trafficInfo 2 ex_started [[], [ex_message], []]))"
    by blast
  then have three: "\<exists>new. processQueues ex_world ex_trafficInfo 2 ex_started
           [[], [ex_message], []] = Inr ex_after \<and>
         attackerPoints ex_after = attackerPoints ex_started @ new \<and>
         sampleTags new = [(ex_trafficInfo, 2)]"
    unfolding del ex_processed by (auto simp: mal)
  have started: "ex_game\<lparr>roundNumber := roundNumber ex_game + 1,
                 attackerPoints := [(ex_trafficInfo, 3, Some 0)],
                 lastAttackerScore := Some 0\<rparr> = ex_started"
    by (simp add: ex_started_def ex_game_def)
  from malicious_message_trains_attacker [where s = ex_game and w = ex_world
      and ti = ex_trafficInfo and ai = 2
      and ?s1.0 = "ex_game\<lparr>roundNumber := roundNumber ex_game + 1,
                            attackerPoints := [(ex_trafficInfo, 3, Some 0)]\<rparr>"
      and Q = "[(''A'', []), (''B'', [ex_message]), (''C'', [])]"]
    ex_wf ex_queues [of "roundNumber ex_game + 1"]
  have "\<exists>s' new. playRound ex_world ex_game = Inr s' \<and>
         attackerPoints s' = [(ex_trafficInfo, 3, Some 0)] @ new \<and>
         sampleTags new =
           map (\<lambda>m. (ex_trafficInfo, 2))
             (filter malicious
                (deliveredQueues ex_world ex_trafficInfo 2 ex_started [[], [ex_message], []])) \<and>
         lastAttackerScore s' = lastScore (Some 0) new"
    by (simp add: started del: One_nat_def)
  then have four: "\<exists>new. attackerPoints ex_after = [(ex_trafficInfo, 3, Some 0)] @ new \<and>
         sampleTags new = [(ex_trafficInfo, 2)] \<and>
         lastAttackerScore ex_after = lastScore (Some 0) new"
    unfolding del ex_round by (auto simp: mal)
  from wf ex_started_edge mal ben pts one two three four after ex_wf ex_round
    ex_traffic [of "roundNumber ex_game + 1"] ex_queues [of "roundNumber ex_game + 1"]
    ex_getAttack
  show ?thesis by simp
qed

section \<open>Further properties of the engine\<close>

text \<open>
  The states of a game are well formed: \<^verbatim>\<open>initializeNetwork\<close> builds a graph whose edges
  join nodes of the graph and infects one of its nodes, and a round played on a
  well-formed state, once its traffic is generated, completes without an error in a
  well-formed state.
\<close>

theorem game_states_wf:
  "(initializeNetwork lines pick = Inr s0 \<longrightarrow> wf_game s0) \<and>
   (wf_game s \<and>
    generateTrafficQueues w (s\<lparr>roundNumber := roundNumber s + 1\<rparr>) = Inr (s1, Q, ti, ai) \<longrightarrow>
      (\<exists>s'. playRound w s = Inr s' \<and> wf_game s'))"
  using initializeNetwork_wf [of lines pick s0] playRound_ok [of s w s1 Q ti ai]
  by blast

theorem game_states_wf_witness:
  "initializeNetwork [(''A'', ''B''), (''B'', ''C'')] 0 = Inr ex_game \<and> wf_game ex_game \<and>
   generateTrafficQueues ex_world (ex_game\<lparr>roundNumber := roundNumber ex_game + 1\<rparr>) =
     Inr (ex_game\<lparr>roundNumber := roundNumber ex_game + 1,
                   attackerPoints := [(ex_trafficInfo, 3, Some 0)]\<rparr>,
          [(''A'', []), (''B'', [ex_message]), (''C'', [])], ex_trafficInfo, 2) \<and>
   playRound ex_world ex_game = Inr ex_after \<and> wf_game ex_after"
proof -
  from game_states_wf [where lines = "[(''A'', ''B''), (''B'', ''C'')]" and pick = 0
      and ?s0.0 = ex_game and s = ex_game and w = ex_world] ex_init ex_queues ex_round
  have "wf_game ex_game \<and> wf_game ex_after"
    by auto
  with ex_init ex_queues ex_round show ?thesis by simp
qed

text \<open>
  The signs of the rewards: a malicious message caught at the highest label costs the
  attacker (reward at most 0) and pays the defender (reward above 0); a malicious
  message that is missed costs the defender and, when its destination is not yet
  infected, pays the attacker.
\<close>

theorem reward_signs:
  "destination m \<in> set (nodes (graph s)) \<and> malicious m \<longrightarrow>
     (\<exists>a d. calculateScore s m HIGH_SUSPICION = Inr (Some a, d) \<and> a \<le> 0 \<and> 0 < d) \<and>
     (\<exists>a d. calculateScore s m NO_SUSPICION = Inr (Some a, d) \<and> d < 0 \<and>
            (destination m \<notin> set (infectedNodes s) \<longrightarrow> 0 < a)) \<and>
     (\<exists>a d. calculateScore s m LOW_SUSPICION = Inr (Some a, d) \<and> d < 0 \<and>
            (destination m \<notin> set (infectedNodes s) \<longrightarrow> 0 < a))"
proof (intro impI)
  assume a: "destination m \<in> set (nodes (graph s)) \<and> malicious m"
  then have d: "destination m \<in> set (nodes (graph s))" and mal: "malicious m" by simp_all
  have pot: "0 \<le> infectionPotential_spec (graph s) (infectedNodes s) (destination m)"
    by (simp add: infectionPotential_spec_def)
  have pos: "destination m \<notin> set (infectedNodes s) \<Longrightarrow>
      0 < infectionPotential_spec (graph s) (infectedNodes s) (destination m)"
    by (simp add: infectionPotential_spec_def)
  have deg: "0 < outDegreePlusOne_spec (graph s) (destination m)"
    by (simp add: outDegreePlusOne_spec_def)
  show "(\<exists>a d. calculateScore s m HIGH_SUSPICION = Inr (Some a, d) \<and> a \<le> 0 \<and> 0 < d) \<and>
     (\<exists>a d. calculateScore s m NO_SUSPICION = Inr (Some a, d) \<and> d < 0 \<and>
            (destination m \<notin> set (infectedNodes s) \<longrightarrow> 0 < a)) \<and>
     (\<exists>a d. calculateScore s m LOW_SUSPICION = Inr (Some a, d) \<and> d < 0 \<and>
            (destination m \<notin> set (infectedNodes s) \<longrightarrow> 0 < a))"
    using pot pos deg by (simp add: calculateScore_eq [OF d] rewardsBefore_def mal)
qed

theorem reward_signs_witness:
  "destination ex_message \<in> set (nodes (graph ex_game)) \<and> malicious ex_message \<and>
   destination ex_message \<notin> set (infectedNodes ex_game) \<and>
   calculateScore ex_game ex_message HIGH_SUSPICION = Inr (Some (- 2), 2) \<and>
   calculateScore ex_game ex_message NO_SUSPICION = Inr (Some 2, - 2)"
proof -
  have d: "destination ex_message \<in> set (nodes (graph ex_game))"
    and mal: "malicious ex_message"
    and fresh: "destination ex_message \<notin> set (infectedNodes ex_game)"
    by (simp_all add: ex_message_def ex_game_def ex_graph_def)
  have high: "calculateScore ex_game ex_message HIGH_SUSPICION = Inr (Some (- 2), 2)"
    by (simp add: calculateScore_def calculateNodeInfectionReward_def neighbors_def
        successors_def ex_game_def ex_graph_def ex_message_def Let_def)
  from reward_signs [where s = ex_game and m = ex_message] d mal
  have "\<exists>a d. calculateScore ex_game ex_message HIGH_SUSPICION = Inr (Some a, d) \<and> a \<le> 0 \<and> 0 < d"
    by blast
  with d mal fresh high ex_score show ?thesis by simp
qed

text \<open>
  The scenario of the specification: in the network A \<open>\<rightarrow>\<close> B, B \<open>\<rightarrow>\<close> C with A infected,
  B is reachable and C is not. When the defender inspects the malicious message from
  A to B and gives it the highest label, all outgoing edges of A are removed, B is not
  infected, the attacker's reward is minus the infection potential of B, the
  defender's reward is the out-degree of B plus one, and the game is over: no node is
  reachable, and \<^verbatim>\<open>runGame\<close> returns at once.
\<close>

theorem three_node_scenario:
  "isReachable ex_game ''B'' = Inr True \<and>
   isReachable ex_game ''C'' = Inr False \<and>
   processMessage ex_strict_world ex_trafficInfo 2 1 ex_game ex_message = Inr ex_repelled \<and>
   successors (graph ex_repelled) ''A'' = [] \<and>
   ''B'' \<notin> set (infectedNodes ex_repelled) \<and>
   calculateNodeInfectionReward ex_game ''B'' = Inr 2 \<and>
   attackerPoints ex_repelled = [(ex_trafficInfo, 2, Some (- 2))] \<and>
   neighbors (graph ex_game) ''B'' = Inr [''C''] \<and>
   defenderPoints ex_repelled = [(ex_message, HIGH_SUSPICION, 2)] \<and>
   gameOver ex_repelled \<and>
   runGame ws fuel ex_repelled = Some (Inr ex_repelled)"
proof -
  have skip: "\<not> skippedInspection ex_strict_world n s" for n s
    by (simp add: skippedInspection_def ex_strict_world_def ex_world_def)
  have lbl: "suspicionLabelOf ex_strict_world n s m = HIGH_SUSPICION" for n s m
    by (simp add: suspicionLabelOf_def skip) (simp add: ex_strict_world_def)
  have p: "processMessage ex_strict_world ex_trafficInfo 2 1 ex_game ex_message = Inr ex_repelled"
    unfolding processMessage_def Let_def lbl
    by (simp add: ex_edge skip)
       (simp add: calculateScore_def calculateNodeInfectionReward_def updateNetwork_def
        quarantineNode_HIGH isReachable_def neighbors_def successors_def skip
        ex_repelled_def ex_game_def ex_graph_def ex_message_def Let_def)
  have over: "gameOver ex_repelled"
    by (simp add: gameOver_def ex_repelled_def)
  then have run: "runGame ws fuel ex_repelled = Some (Inr ex_repelled)"
    by (cases fuel) simp_all
  have rest: "isReachable ex_game ''B'' = Inr True" "isReachable ex_game ''C'' = Inr False"
    "successors (graph ex_repelled) ''A'' = []" "''B'' \<notin> set (infectedNodes ex_repelled)"
    "calculateNodeInfectionReward ex_game ''B'' = Inr 2"
    "attackerPoints ex_repelled = [(ex_trafficInfo, 2, Some (- 2))]"
    "neighbors (graph ex_game) ''B'' = Inr [''C'']"
    "defenderPoints ex_repelled = [(ex_message, HIGH_SUSPICION, 2)]"
    by (simp_all add: isReachable_def calculateNodeInfectionReward_def neighbors_def
        successors_def ex_repelled_def ex_game_def ex_graph_def)
  from p over run rest show ?thesis by simp
qed

text \<open>
  Termination at the start: when the one node \<^verbatim>\<open>initializeNetwork\<close> infects has no
  outgoing edge, no node is reachable, the game is over before any round is played and
  \<^verbatim>\<open>runGame\<close> returns the initial state.
\<close>

theorem isolated_start_is_over:
  "initializeNetwork lines pick = Inr s \<and> infectedNodes s = [i] \<and>
   successors (graph s) i = [] \<longrightarrow>
     gameOver s \<and> runGame ws fuel s = Some (Inr s)"
proof (intro impI)
  assume a: "initializeNetwork lines pick = Inr s \<and> infectedNodes s = [i] \<and>
   successors (graph s) i = []"
  then have init: "initializeNetwork lines pick = Inr s" and inf: "infectedNodes s = [i]"
    and none: "successors (graph s) i = []" by simp_all
  from initializeNetwork_wf [OF init]
  have sub: "set (infectedNodes s) \<subseteq> set (nodes (graph s))" by (simp add: wf_game_def)
  have no_edge: "\<not> has_edge (graph s) i n" for n
    using none in_successors [of n "graph s" i] by simp
  from initializeNetwork_flags [OF init] reachableList_eq [OF sub, of "nodes (graph s)"]
  have "reachableNodes s = map (\<lambda>n. 0) (nodes (graph s))"
    by (simp add: inf no_edge)
  then have over: "gameOver s" by (auto simp: gameOver_def)
  then have "runGame ws fuel s = Some (Inr s)" by (cases fuel) simp_all
  with over show "gameOver s \<and> runGame ws fuel s = Some (Inr s)" by simp
qed

theorem isolated_start_is_over_witness:
  "initializeNetwork [(''A'', ''B''), (''B'', ''C'')] 2 =
     Inr (ex_game\<lparr>infectedNodes := [''C''], reachableNodes := [0, 0, 0]\<rparr>) \<and>
   successors ex_graph ''C'' = [] \<and>
   gameOver (ex_game\<lparr>infectedNodes := [''C''], reachableNodes := [0, 0, 0]\<rparr>) \<and>
   runGame (\<lambda>k. ex_world) 5 (ex_game\<lparr>infectedNodes := [''C''], reachableNodes := [0, 0, 0]\<rparr>) =
     Some (Inr (ex_game\<lparr>infectedNodes := [''C''], reachableNodes := [0, 0, 0]\<rparr>))"
proof -
  let ?s = "ex_game\<lparr>infectedNodes := [''C''], reachableNodes := [0, 0, 0]\<rparr>"
  have init: "initializeNetwork [(''A'', ''B''), (''B'', ''C'')] 2 = Inr ?s"
    by (simp add: initializeNetwork_def networkLine_def sample1_def has_node_def add_node_def
        add_edge_def Let_def ex_game_def ex_graph_def isReachable_def neighbors_def
        successors_def)
  have none: "successors ex_graph ''C'' = []"
    by (simp add: successors_def ex_graph_def)
  have "infectedNodes ?s = [''C'']" "graph ?s = ex_graph"
    by (simp_all add: ex_game_def)
  with isolated_start_is_over [where s = ?s and i = "''C''" and ws = "\<lambda>k. ex_world"
      and fuel = 5 and lines = "[(''A'', ''B''), (''B'', ''C'')]" and pick = 2] init none
  have "gameOver ?s \<and> runGame (\<lambda>k. ex_world) 5 ?s = Some (Inr ?s)"
    by simp
  with init none show ?thesis by simp
qed

end
